theory Spec2Isabelle
  imports Complex_Main
begin

section \<open>JavaScript numbers\<close>

text \<open>
  The script computes with JavaScript numbers. They are modelled as the reals extended
  with the three non-finite values of the language: every arithmetic operator, comparison
  and \<open>Math\<close> function below follows ECMAScript on these four kinds of value. Two things
  of IEEE doubles are left out: rounding (a finite result is the exact real, so that no
  operation on finite numbers overflows to an infinity) and the sign of zero (a zero
  divisor counts as \<open>+0\<close>, which is what the integer day counts of the script produce).

  Day counts, loop counters and weights are integers in the script; they are \<open>int\<close> here
  and enter the arithmetic through \<open>num\<close>.
\<close>

datatype jsnum = Fin real | PInf | NInf | NaN

definition num :: "int \<Rightarrow> jsnum" where
  "num i = Fin (of_int i)"

fun js_neg :: "jsnum \<Rightarrow> jsnum" where
  "js_neg (Fin a) = Fin (- a)"
| "js_neg PInf = NInf"
| "js_neg NInf = PInf"
| "js_neg NaN = NaN"

fun js_add :: "jsnum \<Rightarrow> jsnum \<Rightarrow> jsnum" where
  "js_add NaN y = NaN"
| "js_add x NaN = NaN"
| "js_add (Fin a) (Fin b) = Fin (a + b)"
| "js_add PInf NInf = NaN"
| "js_add NInf PInf = NaN"
| "js_add PInf y = PInf"
| "js_add x PInf = PInf"
| "js_add NInf y = NInf"
| "js_add x NInf = NInf"

definition js_sub :: "jsnum \<Rightarrow> jsnum \<Rightarrow> jsnum" where
  "js_sub x y = js_add x (js_neg y)"

fun js_mul :: "jsnum \<Rightarrow> jsnum \<Rightarrow> jsnum" where
  "js_mul NaN y = NaN"
| "js_mul x NaN = NaN"
| "js_mul (Fin a) (Fin b) = Fin (a * b)"
| "js_mul (Fin a) y = (if a = 0 then NaN else if 0 < a then y else js_neg y)"
| "js_mul x (Fin b) = (if b = 0 then NaN else if 0 < b then x else js_neg x)"
| "js_mul PInf y = y"
| "js_mul NInf y = js_neg y"

fun js_div :: "jsnum \<Rightarrow> jsnum \<Rightarrow> jsnum" where
  "js_div NaN y = NaN"
| "js_div x NaN = NaN"
| "js_div (Fin a) (Fin b) =
     (if b = 0 then (if a = 0 then NaN else if 0 < a then PInf else NInf)
      else Fin (a / b))"
| "js_div (Fin a) y = Fin 0"
| "js_div x (Fin b) = (if 0 \<le> b then x else js_neg x)"
| "js_div x y = NaN"

fun js_lt :: "jsnum \<Rightarrow> jsnum \<Rightarrow> bool" where
  "js_lt NaN y = False"
| "js_lt x NaN = False"
| "js_lt (Fin a) (Fin b) = (a < b)"
| "js_lt x NInf = False"
| "js_lt NInf y = True"
| "js_lt PInf y = False"
| "js_lt x PInf = True"

definition js_gt :: "jsnum \<Rightarrow> jsnum \<Rightarrow> bool" where
  "js_gt x y = js_lt y x"

fun js_le :: "jsnum \<Rightarrow> jsnum \<Rightarrow> bool" where
  "js_le NaN y = False"
| "js_le x NaN = False"
| "js_le (Fin a) (Fin b) = (a \<le> b)"
| "js_le NInf y = True"
| "js_le x PInf = True"
| "js_le x y = False"

text \<open>Truthiness of a number (\<open>x ? a : b\<close>, \<open>x || y\<close>): zero and NaN are falsy.\<close>

fun js_truthy :: "jsnum \<Rightarrow> bool" where
  "js_truthy (Fin a) = (a \<noteq> 0)"
| "js_truthy NaN = False"
| "js_truthy x = True"

definition js_or :: "jsnum \<Rightarrow> jsnum \<Rightarrow> jsnum" where
  "js_or x y = (if js_truthy x then x else y)"

text \<open>\<open>Math.max\<close>, \<open>Math.abs\<close> and \<open>Math.round\<close> (which rounds a half upwards).\<close>

fun Math_max :: "jsnum \<Rightarrow> jsnum \<Rightarrow> jsnum" where
  "Math_max NaN y = NaN"
| "Math_max x NaN = NaN"
| "Math_max x y = (if js_lt x y then y else x)"

fun Math_abs :: "jsnum \<Rightarrow> jsnum" where
  "Math_abs (Fin a) = Fin \<bar>a\<bar>"
| "Math_abs NaN = NaN"
| "Math_abs x = PInf"

fun Math_round :: "jsnum \<Rightarrow> jsnum" where
  "Math_round (Fin a) = Fin (of_int \<lfloor>a + 1 / 2\<rfloor>)"
| "Math_round x = x"

subsection \<open>Numbers in string concatenation\<close>

text \<open>
  \<open>'Over ' + pct + '%'\<close> converts the number to a string. The only numbers the script
  converts are results of \<open>Math.round\<close>: integers, printed in decimal, or a non-finite
  value, printed by name. (From \<open>10^21\<close> on JavaScript switches to exponent notation; the
  decimal digits of a double are outside this model.)
\<close>

definition digit_char :: "nat \<Rightarrow> char" where
  "digit_char n = ''0123456789'' ! (n mod 10)"

fun nat_to_string :: "nat \<Rightarrow> string" where
  "nat_to_string n =
     (if n < 10 then [digit_char n] else nat_to_string (n div 10) @ [digit_char n])"

definition int_to_string :: "int \<Rightarrow> string" where
  "int_to_string i = (if i < 0 then CHR ''-'' # nat_to_string (nat (- i)) else nat_to_string (nat i))"

fun js_to_string :: "jsnum \<Rightarrow> string" where
  "js_to_string (Fin a) = int_to_string \<lfloor>a\<rfloor>"
| "js_to_string PInf = ''Infinity''"
| "js_to_string NInf = ''-Infinity''"
| "js_to_string NaN = ''NaN''"

section \<open>Dates\<close>

text \<open>
  A \<open>Date\<close> is its time value: milliseconds since the epoch. The functions below are
  the date arithmetic of ECMAScript (\<open>Day\<close>, \<open>DaysInYear\<close>, \<open>DayFromYear\<close>,
  \<open>YearFromTime\<close>, \<open>DayWithinYear\<close>, \<open>DateFromTime\<close>, \<open>MakeDay\<close>), which the
  constructor \<open>new Date(y, m, d)\<close>, \<open>getTime\<close> and \<open>getDate\<close> of the script run,
  followed by the conversion between UTC and the local time of the zone the script runs
  in (\<open>LocalTZA\<close>, \<open>LocalTime\<close>, \<open>UTC\<close>).
\<close>

definition msPerDay :: int where
  "msPerDay = 24 * 60 * 60 * 1000"

definition Day :: "int \<Rightarrow> int" where
  "Day t = t div msPerDay"

definition DaysInYear :: "int \<Rightarrow> int" where
  "DaysInYear yr =
     (if yr mod 4 \<noteq> 0 then 365 else if yr mod 100 \<noteq> 0 then 366
      else if yr mod 400 \<noteq> 0 then 365 else 366)"

definition DayFromYear :: "int \<Rightarrow> int" where
  "DayFromYear yr =
     365 * (yr - 1970) + (yr - 1969) div 4 - (yr - 1901) div 100 + (yr - 1601) div 400"

text \<open>
  \<open>YearFromTime\<close> is the largest year whose first day is not after the given day. A
  year has 365.2425 days on average, which places that year within one of the estimate
  \<open>e\<close>; the three candidates are tried from the largest down.
\<close>

definition YearFromDay :: "int \<Rightarrow> int" where
  "YearFromDay day =
     (let e = 1970 + (day * 400) div 146097 in
      if DayFromYear (e + 1) \<le> day then e + 1
      else if DayFromYear e \<le> day then e
      else e - 1)"

definition YearFromTime :: "int \<Rightarrow> int" where
  "YearFromTime t = YearFromDay (Day t)"

definition InLeapYear :: "int \<Rightarrow> int" where
  "InLeapYear t = (if DaysInYear (YearFromTime t) = 366 then 1 else 0)"

definition DayWithinYear :: "int \<Rightarrow> int" where
  "DayWithinYear t = Day t - DayFromYear (YearFromTime t)"

definition DateFromTime :: "int \<Rightarrow> int" where
  "DateFromTime t =
     (let dayWithinYear = DayWithinYear t; inLeapYear = InLeapYear t in
      if dayWithinYear < 31 then dayWithinYear + 1
      else if dayWithinYear < 59 + inLeapYear then dayWithinYear - 30
      else if dayWithinYear < 90 + inLeapYear then dayWithinYear - 58 - inLeapYear
      else if dayWithinYear < 120 + inLeapYear then dayWithinYear - 89 - inLeapYear
      else if dayWithinYear < 151 + inLeapYear then dayWithinYear - 119 - inLeapYear
      else if dayWithinYear < 181 + inLeapYear then dayWithinYear - 150 - inLeapYear
      else if dayWithinYear < 212 + inLeapYear then dayWithinYear - 180 - inLeapYear
      else if dayWithinYear < 243 + inLeapYear then dayWithinYear - 211 - inLeapYear
      else if dayWithinYear < 273 + inLeapYear then dayWithinYear - 242 - inLeapYear
      else if dayWithinYear < 304 + inLeapYear then dayWithinYear - 272 - inLeapYear
      else if dayWithinYear < 334 + inLeapYear then dayWithinYear - 303 - inLeapYear
      else dayWithinYear - 333 - inLeapYear)"

text \<open>
  \<open>MakeDay\<close>: the day number of day \<open>date\<close> counted from the first of the month, the
  month counted from January of \<open>year\<close> (a month of 12 is January of the next year).
\<close>

definition month_start :: "int \<Rightarrow> int \<Rightarrow> int" where
  "month_start yr mn =
     [0, 31, 59, 90, 120, 151, 181, 212, 243, 273, 304, 334] ! nat mn
     + (if 2 \<le> mn \<and> DaysInYear yr = 366 then 1 else 0)"

definition MakeDay :: "int \<Rightarrow> int \<Rightarrow> int \<Rightarrow> int" where
  "MakeDay year month date =
     (let ym = year + month div 12; mn = month mod 12 in
      DayFromYear ym + month_start ym mn + date - 1)"

subsection \<open>Local time\<close>

text \<open>
  A time zone is its offset from UTC in milliseconds, and the instants (UTC, ascending)
  at which the offset changes, each with the offset from then on: the start and the end
  of daylight saving are two such changes a year.
\<close>

record zone =
  base_offset :: int
  transitions :: "(int \<times> int) list"

text \<open>The offset in force at a UTC instant.\<close>

fun offset_at_utc :: "int \<Rightarrow> (int \<times> int) list \<Rightarrow> int \<Rightarrow> int" where
  "offset_at_utc off [] t = off"
| "offset_at_utc off ((T, off') # ts) t = (if t < T then off else offset_at_utc off' ts t)"

text \<open>
  The offset to read a local time with. A local time that a change skips (the clock is
  put forward) or that occurs twice (the clock is put back) is read with the offset
  before the change, as ECMAScript prescribes.
\<close>

fun offset_at_local :: "int \<Rightarrow> (int \<times> int) list \<Rightarrow> int \<Rightarrow> int" where
  "offset_at_local off [] t = off"
| "offset_at_local off ((T, off') # ts) t =
     (if t < T + max off off' then off else offset_at_local off' ts t)"

definition LocalTZA :: "zone \<Rightarrow> int \<Rightarrow> bool \<Rightarrow> int" where
  "LocalTZA z t isUTC =
     (if isUTC then offset_at_utc (base_offset z) (transitions z) t
      else offset_at_local (base_offset z) (transitions z) t)"

definition LocalTime :: "zone \<Rightarrow> int \<Rightarrow> int" where
  "LocalTime z t = t + LocalTZA z t True"

definition UTC :: "zone \<Rightarrow> int \<Rightarrow> int" where
  "UTC z t = t - LocalTZA z t False"

text \<open>
  \<open>new Date(year, month, date)\<close> in the zone \<open>z\<close>: midnight, local time, of that day;
  a year from 0 to 99 means 1900 + year. \<open>getDate\<close> is the day of the month in local
  time.
\<close>

definition new_Date_in :: "zone \<Rightarrow> int \<Rightarrow> int \<Rightarrow> int \<Rightarrow> int" where
  "new_Date_in z year month date =
     (let yr = (if 0 \<le> year \<and> year \<le> 99 then 1900 + year else year) in
      UTC z (MakeDay yr month date * msPerDay))"

definition getDate_in :: "zone \<Rightarrow> int \<Rightarrow> int" where
  "getDate_in z t = DateFromTime (LocalTime z t)"

text \<open>
  The per-day series below needs of a date only its calendar day. Its dates are taken
  in the zone of UTC, where local time is the time value itself.
\<close>

definition zone_UTC :: zone where
  "zone_UTC = \<lparr>base_offset = 0, transitions = []\<rparr>"

definition new_Date :: "int \<Rightarrow> int \<Rightarrow> int \<Rightarrow> int" where
  "new_Date year month date = new_Date_in zone_UTC year month date"

definition getDate :: "int \<Rightarrow> int" where
  "getDate t = getDate_in zone_UTC t"

text \<open>
  The reference the month context is compared with: the length of month \<open>m\<close> (0 for
  January) of year \<open>yr\<close> in the Gregorian calendar.
\<close>

definition month_length :: "int \<Rightarrow> int \<Rightarrow> int" where
  "month_length yr m =
     (if m = 1 then (if DaysInYear yr = 366 then 29 else 28)
      else if m = 3 \<or> m = 5 \<or> m = 8 \<or> m = 10 then 30 else 31)"

section \<open>The month context\<close>

text \<open>
  The object \<open>monthMeta_\<close> returns. \<open>Utilities.formatDate(today, tz, f)\<close> is the
  platform's; the three calls give the year, the month (1 to 12) and the day of the month
  of the reference instant in the zone \<open>tz\<close>, and are the arguments \<open>yyyy\<close>, \<open>M\<close> and
  \<open>d\<close> here. The three \<open>Date\<close> values are built and read in the zone the script runs
  in, the argument \<open>z\<close>.
\<close>

record MonthContext =
  tz :: string
  y :: int
  m0 :: int
  first :: int
  daysInMonth :: int
  daysElapsed :: int

definition monthMeta :: "zone \<Rightarrow> int \<Rightarrow> int \<Rightarrow> int \<Rightarrow> string \<Rightarrow> MonthContext" where
  "monthMeta z yyyy M d tz' =
     (let y' = yyyy;
          m0' = M - 1;
          first' = new_Date_in z y' m0' 1;
          next = new_Date_in z y' (m0' + 1) 1;
          end' = next - 24 * 60 * 60 * 1000;
          daysInMonth' = getDate_in z end';
          daysElapsed' = min d daysInMonth'
      in \<lparr>tz = tz', y = y', m0 = m0', first = first',
          daysInMonth = daysInMonth', daysElapsed = daysElapsed'\<rparr>)"

section \<open>The per-day series\<close>

text \<open>
  An observation is an object with a date and a cost; a row of the series has these and
  the derived figures. The two forecast fields do not exist until \<open>applyWmaForecast_\<close>
  writes them: \<open>None\<close> is the absent property.
\<close>

record DailyObservation =
  date :: int
  cost :: jsnum

record DayRow = DailyObservation +
  cumSpend :: jsnum
  targetDaily :: jsnum
  cumTarget :: jsnum
  gap :: jsnum
  cumGap :: jsnum
  runningPacePct :: jsnum
  recDaily :: jsnum
  cumForecastWma :: "jsnum option"
  projectedEomWmaAtDay :: "jsnum option"

text \<open>\<open>byDay[day] || 0\<close>: an absent key is \<open>undefined\<close>, which is falsy.\<close>

definition byDay_get :: "(int \<Rightarrow> jsnum option) \<Rightarrow> int \<Rightarrow> jsnum" where
  "byDay_get byDay day = (case byDay day of None \<Rightarrow> Fin 0 | Some v \<Rightarrow> js_or v (Fin 0))"

text \<open>The first loop of \<open>buildPerDayRows_\<close>, over the observations in their order.\<close>

fun byDay_loop :: "DailyObservation list \<Rightarrow> (int \<Rightarrow> jsnum option) \<Rightarrow> (int \<Rightarrow> jsnum option)" where
  "byDay_loop [] byDay = byDay"
| "byDay_loop (ob # daily) byDay =
     (let day = getDate (date ob) in
      byDay_loop daily (byDay(day \<mapsto> js_add (byDay_get byDay day) (js_or (cost ob) (Fin 0)))))"

definition build_targetDaily :: "jsnum \<Rightarrow> MonthContext \<Rightarrow> jsnum" where
  "build_targetDaily monthlyBudget mCtx =
     (if daysInMonth mCtx > 0 then js_div monthlyBudget (num (daysInMonth mCtx)) else Fin 0)"

text \<open>The second loop: one row per day \<open>d\<close>, pushed onto \<open>perDay\<close>.\<close>

function rows_loop ::
  "(int \<Rightarrow> jsnum option) \<Rightarrow> jsnum \<Rightarrow> MonthContext \<Rightarrow> jsnum \<Rightarrow> int \<Rightarrow> DayRow list \<Rightarrow> jsnum \<Rightarrow> DayRow list" where
  "rows_loop byDay monthlyBudget mCtx targetDaily' d perDay cumSpend' =
     (if d \<le> daysInMonth mCtx then
        (let cost' = byDay_get byDay d;
             cumSpend'' = js_add cumSpend' cost';
             cumTarget' = js_mul targetDaily' (num d);
             gap' = js_sub cost' targetDaily';
             cumGap' = js_sub cumSpend'' cumTarget';
             runningPacePct' =
               (if js_gt monthlyBudget (Fin 0) then js_div cumSpend'' monthlyBudget else Fin 0);
             row = \<lparr>date = new_Date (y mCtx) (m0 mCtx) d,
                    cost = cost',
                    cumSpend = cumSpend'',
                    targetDaily = targetDaily',
                    cumTarget = cumTarget',
                    gap = gap',
                    cumGap = cumGap',
                    runningPacePct = runningPacePct',
                    recDaily =
                      (if daysInMonth mCtx - d > 0
                       then Math_max (js_div (js_sub monthlyBudget cumSpend'')
                                             (num (daysInMonth mCtx - d))) (Fin 0)
                       else Fin 0),
                    cumForecastWma = None,
                    projectedEomWmaAtDay = None\<rparr>
         in rows_loop byDay monthlyBudget mCtx targetDaily' (d + 1) (perDay @ [row]) cumSpend'')
      else perDay)"
  by pat_completeness auto
termination
  by (relation "measure (\<lambda>(byDay, monthlyBudget, mCtx, targetDaily', d, perDay, cumSpend').
                   nat (daysInMonth mCtx + 1 - d))") auto

definition buildPerDayRows :: "DailyObservation list \<Rightarrow> jsnum \<Rightarrow> MonthContext \<Rightarrow> DayRow list" where
  "buildPerDayRows daily monthlyBudget mCtx =
     (let byDay = byDay_loop daily Map.empty;
          targetDaily' = build_targetDaily monthlyBudget mCtx
      in rows_loop byDay monthlyBudget mCtx targetDaily' 1 [] (Fin 0))"

section \<open>The weighted moving average\<close>

text \<open>
  \<open>perDay[idx - 1].cost\<close> reads a property of \<open>undefined\<close> when the series has no
  element at \<open>idx - 1\<close>: a \<open>TypeError\<close>. (\<open>idx - 1\<close> is never negative there: the
  loop has left at \<open>idx \<le> 0\<close>.)
\<close>

datatype error = TypeError

function wma_loop ::
  "DayRow list \<Rightarrow> int \<Rightarrow> int \<Rightarrow> int \<Rightarrow> int \<Rightarrow> jsnum \<Rightarrow> error + (int \<times> jsnum)" where
  "wma_loop perDay daysElapsed' n i sumW sumWX =
     (if i < n then
        (let idx = daysElapsed' - i in
         if idx \<le> 0 then Inr (sumW, sumWX)
         else if int (length perDay) \<le> idx - 1 then Inl TypeError
         else
           (let cost' = js_or (cost (perDay ! nat (idx - 1))) (Fin 0);
                w = n - i
            in wma_loop perDay daysElapsed' n (i + 1) (sumW + w)
                 (js_add sumWX (js_mul (num w) cost'))))
      else Inr (sumW, sumWX))"
  by pat_completeness auto
termination
  by (relation "measure (\<lambda>(perDay, daysElapsed', n, i, sumW, sumWX). nat (n - i))") auto

text \<open>The value returned after the loop: \<open>sumW ? (sumWX / sumW) : 0\<close>.\<close>

definition wma_result :: "int \<Rightarrow> jsnum \<Rightarrow> jsnum" where
  "wma_result sumW sumWX = (if sumW \<noteq> 0 then js_div sumWX (num sumW) else Fin 0)"

definition computeWmaDaily :: "DayRow list \<Rightarrow> int \<Rightarrow> int \<Rightarrow> error + jsnum" where
  "computeWmaDaily perDay daysElapsed' window =
     (let n = min window (max daysElapsed' 0) in
      if n \<le> 0 then Inr (Fin 0)
      else
        (case wma_loop perDay daysElapsed' n 0 0 (Fin 0) of
           Inl e \<Rightarrow> Inl e
         | Inr (sumW, sumWX) \<Rightarrow> Inr (wma_result sumW sumWX)))"

section \<open>The forecast\<close>

text \<open>
  \<open>applyWmaForecast_\<close> writes two properties into every row of the array it is given
  and returns that array; here it returns the updated series. \<open>forecast_row\<close> is the
  body of its loop: the two assignments to \<open>perDay[d-1]\<close>, the second reading the row
  the first has written.
\<close>

definition forecast_row :: "MonthContext \<Rightarrow> jsnum \<Rightarrow> jsnum \<Rightarrow> int \<Rightarrow> DayRow \<Rightarrow> DayRow" where
  "forecast_row mCtx spendMtd wmaDaily d r =
     (let r1 = r\<lparr>cumForecastWma :=
                   Some (if d \<le> daysElapsed mCtx then cumSpend r
                         else js_add spendMtd (js_mul wmaDaily (num (d - daysElapsed mCtx))))\<rparr>
      in r1\<lparr>projectedEomWmaAtDay :=
               Some (js_add (cumSpend r1) (js_mul wmaDaily (num (daysInMonth mCtx - d))))\<rparr>)"

function forecast_loop :: "DayRow list \<Rightarrow> MonthContext \<Rightarrow> jsnum \<Rightarrow> jsnum \<Rightarrow> int \<Rightarrow> DayRow list" where
  "forecast_loop perDay mCtx spendMtd wmaDaily d =
     (if d \<le> int (length perDay) then
        forecast_loop
          (perDay[nat (d - 1) := forecast_row mCtx spendMtd wmaDaily d (perDay ! nat (d - 1))])
          mCtx spendMtd wmaDaily (d + 1)
      else perDay)"
  by pat_completeness auto
termination
  by (relation "measure (\<lambda>(perDay, mCtx, spendMtd, wmaDaily, d). nat (int (length perDay) + 1 - d))") auto

definition applyWmaForecast :: "DayRow list \<Rightarrow> MonthContext \<Rightarrow> jsnum \<Rightarrow> jsnum \<Rightarrow> DayRow list" where
  "applyWmaForecast perDay mCtx spendMtd wmaDaily = forecast_loop perDay mCtx spendMtd wmaDaily 1"

section \<open>The budgets the configuration lets through\<close>


section \<open>The account-level figures of \<open>main\<close>\<close>

text \<open>
  The figures \<open>main\<close> computes for the overview row of one account, from
  \<open>budgetCap\<close>, \<open>spendMtd\<close>, \<open>wmaDaily\<close> and the month context; each definition is one
  \<open>var\<close> of the source, under the source's name.
\<close>

definition main_availRem :: "jsnum \<Rightarrow> jsnum \<Rightarrow> jsnum" where
  "main_availRem budgetCap spendMtd = Math_max (js_sub budgetCap spendMtd) (Fin 0)"

definition main_targetToDate :: "jsnum \<Rightarrow> MonthContext \<Rightarrow> jsnum" where
  "main_targetToDate budgetCap mCtx =
     js_mul budgetCap (js_div (num (daysElapsed mCtx)) (num (daysInMonth mCtx)))"

definition main_paceVsTarget :: "jsnum \<Rightarrow> jsnum \<Rightarrow> MonthContext \<Rightarrow> jsnum" where
  "main_paceVsTarget budgetCap spendMtd mCtx = js_sub spendMtd (main_targetToDate budgetCap mCtx)"

definition main_pctBudgetSpent :: "jsnum \<Rightarrow> jsnum \<Rightarrow> jsnum" where
  "main_pctBudgetSpent budgetCap spendMtd =
     (if js_gt budgetCap (Fin 0) then js_div spendMtd budgetCap else Fin 0)"

definition main_remainingDays :: "MonthContext \<Rightarrow> int" where
  "main_remainingDays mCtx = max (daysInMonth mCtx - daysElapsed mCtx) 0"

definition main_projectedEom :: "jsnum \<Rightarrow> jsnum \<Rightarrow> MonthContext \<Rightarrow> jsnum" where
  "main_projectedEom spendMtd wmaDaily mCtx =
     js_add spendMtd (js_mul wmaDaily (num (main_remainingDays mCtx)))"

definition main_recDaily :: "jsnum \<Rightarrow> jsnum \<Rightarrow> MonthContext \<Rightarrow> jsnum" where
  "main_recDaily budgetCap spendMtd mCtx =
     (if main_remainingDays mCtx > 0
      then Math_max (js_div (js_sub budgetCap spendMtd) (num (main_remainingDays mCtx))) (Fin 0)
      else Fin 0)"

definition main_paceDeltaPct :: "jsnum \<Rightarrow> jsnum \<Rightarrow> MonthContext \<Rightarrow> jsnum" where
  "main_paceDeltaPct budgetCap spendMtd mCtx =
     (if js_gt (main_targetToDate budgetCap mCtx) (Fin 0)
      then js_sub (js_div spendMtd (main_targetToDate budgetCap mCtx)) (Fin 1)
      else Fin 0)"

subsection \<open>The same figures in \<open>writeAccountSheet_\<close>\<close>

text \<open>
  \<open>writeAccountSheet_\<close> receives a context object from \<open>main\<close> and computes the
  figures again for the account's own sheet. The record has the fields of that object
  the computation reads.
\<close>

record SheetCtx =
  ctx_monthlyBudget :: jsnum
  ctx_spendMtd :: jsnum
  ctx_daysInMonth :: int
  ctx_daysElapsed :: int
  ctx_wmaDaily :: jsnum

definition main_sheetCtx :: "jsnum \<Rightarrow> jsnum \<Rightarrow> jsnum \<Rightarrow> MonthContext \<Rightarrow> SheetCtx" where
  "main_sheetCtx budgetCap spendMtd wmaDaily mCtx =
     \<lparr>ctx_monthlyBudget = budgetCap, ctx_spendMtd = spendMtd,
      ctx_daysInMonth = daysInMonth mCtx, ctx_daysElapsed = daysElapsed mCtx,
      ctx_wmaDaily = wmaDaily\<rparr>"

definition sheet_targetToDate :: "SheetCtx \<Rightarrow> jsnum" where
  "sheet_targetToDate ctx =
     js_mul (ctx_monthlyBudget ctx) (js_div (num (ctx_daysElapsed ctx)) (num (ctx_daysInMonth ctx)))"

definition sheet_paceVsTarget :: "SheetCtx \<Rightarrow> jsnum" where
  "sheet_paceVsTarget ctx = js_sub (ctx_spendMtd ctx) (sheet_targetToDate ctx)"

definition sheet_pctBudgetSpent :: "SheetCtx \<Rightarrow> jsnum" where
  "sheet_pctBudgetSpent ctx =
     (if js_gt (ctx_monthlyBudget ctx) (Fin 0)
      then js_div (ctx_spendMtd ctx) (ctx_monthlyBudget ctx) else Fin 0)"

definition sheet_remainingDays :: "SheetCtx \<Rightarrow> int" where
  "sheet_remainingDays ctx = max (ctx_daysInMonth ctx - ctx_daysElapsed ctx) 0"

definition sheet_projectedEom :: "SheetCtx \<Rightarrow> jsnum" where
  "sheet_projectedEom ctx =
     js_add (ctx_spendMtd ctx) (js_mul (ctx_wmaDaily ctx) (num (sheet_remainingDays ctx)))"

definition sheet_recDaily :: "SheetCtx \<Rightarrow> jsnum" where
  "sheet_recDaily ctx =
     (if sheet_remainingDays ctx > 0
      then Math_max (js_div (js_sub (ctx_monthlyBudget ctx) (ctx_spendMtd ctx))
                            (num (sheet_remainingDays ctx))) (Fin 0)
      else Fin 0)"

section \<open>The trend label\<close>

text \<open>
  \<open>trendLabel_\<close> of the source (an Isabelle name cannot end in an underscore; the
  functions of the script are written without their trailing underscore throughout).
\<close>

definition trendLabel :: "jsnum \<Rightarrow> string" where
  "trendLabel paceDeltaPct =
     (let abs = Math_abs paceDeltaPct; pct = Math_round (js_mul abs (Fin 100)) in
      if js_le abs (Fin (5 / 100)) then ''On Target''
      else if js_lt paceDeltaPct (Fin 0) then ''Under '' @ js_to_string pct @ ''%''
      else ''Over '' @ js_to_string pct @ ''%'')"

section \<open>Arithmetic on finite numbers\<close>

declare rows_loop.simps [simp del] wma_loop.simps [simp del] forecast_loop.simps [simp del]

lemma js_or_Fin0: "js_or (Fin a) (Fin 0) = Fin a"
  by (simp add: js_or_def)

lemma Math_max_Fin: "Math_max (Fin a) (Fin b) = Fin (max a b)"
  by (simp add: max_def)

lemma js_sub_Fin: "js_sub (Fin a) (Fin b) = Fin (a - b)"
  by (simp add: js_sub_def)

lemma js_gt_Fin: "js_gt (Fin a) (Fin b) = (b < a)"
  by (simp add: js_gt_def)

lemma js_div_num: "i \<noteq> 0 \<Longrightarrow> js_div (Fin a) (num i) = Fin (a / of_int i)"
  by (simp add: num_def)

lemma js_mul_num: "js_mul (Fin a) (num i) = Fin (a * of_int i)"
  by (simp add: num_def)

section \<open>Properties of the account-level figures\<close>

text \<open>
  C4. For every budget, month-to-date spend and weighted average (finite numbers) and
  every month context, with \<open>rd = max (daysInMonth - daysElapsed) 0\<close>: the remaining
  days are \<open>rd\<close>, the projected end-of-month spend is \<open>spendMtd + wmaDaily * rd\<close>, and
  the recommended daily spend is \<open>max ((budget - spendMtd) / rd) 0\<close> when \<open>rd > 0\<close> and
  0 when \<open>rd = 0\<close>; so it is never negative. This holds of the figures \<open>main\<close> puts on
  the overview row and of those \<open>writeAccountSheet_\<close> computes again.
\<close>

theorem C4_account_level_outputs:
  fixes B s w :: real and mCtx :: MonthContext
  defines "rd \<equiv> max (daysInMonth mCtx - daysElapsed mCtx) 0"
  shows "main_remainingDays mCtx = rd
    \<and> main_projectedEom (Fin s) (Fin w) mCtx = Fin (s + w * of_int rd)
    \<and> main_recDaily (Fin B) (Fin s) mCtx = Fin (if rd > 0 then max ((B - s) / of_int rd) 0 else 0)
    \<and> sheet_remainingDays (main_sheetCtx (Fin B) (Fin s) (Fin w) mCtx) = rd
    \<and> sheet_projectedEom (main_sheetCtx (Fin B) (Fin s) (Fin w) mCtx) = Fin (s + w * of_int rd)
    \<and> sheet_recDaily (main_sheetCtx (Fin B) (Fin s) (Fin w) mCtx)
        = Fin (if rd > 0 then max ((B - s) / of_int rd) 0 else 0)
    \<and> (\<exists>r. main_recDaily (Fin B) (Fin s) mCtx = Fin r \<and> 0 \<le> r)"
  unfolding rd_def
  by (simp add: main_remainingDays_def main_projectedEom_def main_recDaily_def
      sheet_remainingDays_def sheet_projectedEom_def sheet_recDaily_def main_sheetCtx_def
      js_sub_Fin js_mul_num js_div_num Math_max_Fin)

text \<open>
  The 30-day month of the specification's scenario: budget 3000, 1000 spent in 10 days,
  a weighted average of 100 a day.
\<close>

theorem C4_account_level_outputs_witness:
  "main_remainingDays \<lparr>tz = ''UTC'', y = 2024, m0 = 5, first = 0, daysInMonth = 30, daysElapsed = 10\<rparr> = 20
   \<and> main_projectedEom (Fin 1000) (Fin 100)
        \<lparr>tz = ''UTC'', y = 2024, m0 = 5, first = 0, daysInMonth = 30, daysElapsed = 10\<rparr> = Fin 3000
   \<and> main_recDaily (Fin 3000) (Fin 1000)
        \<lparr>tz = ''UTC'', y = 2024, m0 = 5, first = 0, daysInMonth = 30, daysElapsed = 10\<rparr> = Fin 100"
  using C4_account_level_outputs [of "\<lparr>tz = ''UTC'', y = 2024, m0 = 5, first = 0, daysInMonth = 30, daysElapsed = 10\<rparr>" 1000 100 3000]
  by simp

text \<open>
  C5. For every budget and month-to-date spend (finite numbers) and every month context
  with \<open>daysInMonth \<ge> 1\<close>: the target spend to date is
  \<open>budget * (daysElapsed / daysInMonth)\<close>, the pace against it is \<open>spendMtd - target\<close>,
  the share of the budget spent is \<open>spendMtd / budget\<close> when the budget is positive and
  0 otherwise, the pace delta is \<open>spendMtd / target - 1\<close> when the target is positive and
  0 otherwise, and the available remainder is \<open>max (budget - spendMtd) 0\<close>;
  \<open>writeAccountSheet_\<close> computes the same target, pace and share.
\<close>

theorem C5_aggregator_figures:
  fixes B s :: real and mCtx :: MonthContext
  assumes "1 \<le> daysInMonth mCtx"
  defines "t \<equiv> B * (of_int (daysElapsed mCtx) / of_int (daysInMonth mCtx))"
  shows "main_targetToDate (Fin B) mCtx = Fin t
    \<and> main_paceVsTarget (Fin B) (Fin s) mCtx = Fin (s - t)
    \<and> main_pctBudgetSpent (Fin B) (Fin s) = Fin (if B > 0 then s / B else 0)
    \<and> main_paceDeltaPct (Fin B) (Fin s) mCtx = Fin (if t > 0 then s / t - 1 else 0)
    \<and> main_availRem (Fin B) (Fin s) = Fin (max (B - s) 0)
    \<and> sheet_targetToDate (main_sheetCtx (Fin B) (Fin s) w mCtx) = Fin t
    \<and> sheet_paceVsTarget (main_sheetCtx (Fin B) (Fin s) w mCtx) = Fin (s - t)
    \<and> sheet_pctBudgetSpent (main_sheetCtx (Fin B) (Fin s) w mCtx) = Fin (if B > 0 then s / B else 0)"
proof -
  have tt: "main_targetToDate (Fin B) mCtx = Fin t"
    using assms(1) by (simp add: main_targetToDate_def t_def num_def)
  have st: "sheet_targetToDate (main_sheetCtx (Fin B) (Fin s) w mCtx) = Fin t"
    using assms(1) by (simp add: sheet_targetToDate_def main_sheetCtx_def t_def num_def)
  show ?thesis
    by (simp add: tt st [unfolded main_sheetCtx_def] main_paceVsTarget_def
        main_pctBudgetSpent_def main_paceDeltaPct_def main_availRem_def sheet_paceVsTarget_def
        sheet_pctBudgetSpent_def js_sub_Fin js_gt_Fin Math_max_Fin main_sheetCtx_def)
qed

text \<open>Budget 3000, 1200 spent by day 10 of 30: the target is 1000, the pace is 20% over.\<close>

theorem C5_aggregator_figures_witness:
  "main_targetToDate (Fin 3000)
      \<lparr>tz = ''UTC'', y = 2024, m0 = 5, first = 0, daysInMonth = 30, daysElapsed = 10\<rparr> = Fin 1000
   \<and> main_paceVsTarget (Fin 3000) (Fin 1200)
      \<lparr>tz = ''UTC'', y = 2024, m0 = 5, first = 0, daysInMonth = 30, daysElapsed = 10\<rparr> = Fin 200
   \<and> main_pctBudgetSpent (Fin 3000) (Fin 1200) = Fin (2 / 5)
   \<and> main_paceDeltaPct (Fin 3000) (Fin 1200)
      \<lparr>tz = ''UTC'', y = 2024, m0 = 5, first = 0, daysInMonth = 30, daysElapsed = 10\<rparr> = Fin (1 / 5)"
  using C5_aggregator_figures [of "\<lparr>tz = ''UTC'', y = 2024, m0 = 5, first = 0, daysInMonth = 30, daysElapsed = 10\<rparr>" 3000 1200]
  by simp

section \<open>Properties of the trend label\<close>

lemma js_to_string_round: "js_to_string (Math_round (Fin a)) = int_to_string \<lfloor>a + 1 / 2\<rfloor>"
  by simp

text \<open>
  C6. For every real pace delta \<open>p\<close>, with \<open>N = round (|p| * 100)\<close> (\<open>Math.round\<close>:
  the floor of the number plus a half): the label is \<open>On Target\<close> exactly when
  \<open>|p| \<le> 0.05\<close>; otherwise it is \<open>Under N%\<close> when \<open>p < 0\<close> and \<open>Over N%\<close> when
  \<open>p > 0\<close>. At 0.05 the label is \<open>On Target\<close>, at 0.0500001 it is \<open>Over 5%\<close>.
\<close>

theorem C6_trendLabel:
  fixes p :: real
  defines "N \<equiv> \<lfloor>\<bar>p\<bar> * 100 + 1 / 2\<rfloor>"
  shows "(trendLabel (Fin p) = ''On Target'' \<longleftrightarrow> \<bar>p\<bar> \<le> 5 / 100)
    \<and> trendLabel (Fin p) =
        (if \<bar>p\<bar> \<le> 5 / 100 then ''On Target''
         else if p < 0 then ''Under '' @ int_to_string N @ ''%''
         else ''Over '' @ int_to_string N @ ''%'')
    \<and> (\<not> \<bar>p\<bar> \<le> 5 / 100 \<and> \<not> p < 0 \<longrightarrow> 0 < p)
    \<and> trendLabel (Fin (5 / 100)) = ''On Target''
    \<and> trendLabel (Fin (500001 / 10000000)) = ''Over 5%''"
  unfolding N_def
  by (simp add: trendLabel_def int_to_string_def digit_char_def)

theorem C6_trendLabel_witness:
  "trendLabel (Fin (- (1234 / 10000))) = ''Under 12%''
   \<and> trendLabel (Fin (3 / 100)) = ''On Target''
   \<and> trendLabel (Fin (- (5 / 100))) = ''On Target''"
  using C6_trendLabel [of "- (1234 / 10000)"] C6_trendLabel [of "3 / 100"]
    C6_trendLabel [of "- (5 / 100)"]
  by (simp add: int_to_string_def digit_char_def)

section \<open>Properties of the calendar and the month context\<close>

text \<open>In the zone of UTC the conversions are the identity.\<close>

lemma new_Date_eq:
  "new_Date year month dd =
     (let yr = (if 0 \<le> year \<and> year \<le> 99 then 1900 + year else year) in
      MakeDay yr month dd * msPerDay)"
  by (simp add: new_Date_def new_Date_in_def UTC_def LocalTZA_def zone_UTC_def Let_def)

lemma getDate_eq: "getDate t = DateFromTime t"
  by (simp add: getDate_def getDate_in_def LocalTime_def LocalTZA_def zone_UTC_def)

lemma div_step:
  fixes a k :: int
  assumes "0 < k"
  shows "(a + 1) div k = a div k + (if (a + 1) mod k = 0 then 1 else 0)"
proof -
  define q r where "q = a div k" and "r = a mod k"
  have a: "a = k * q + r" and r0: "0 \<le> r" and rk: "r < k"
    using assms by (simp_all add: q_def r_def)
  show ?thesis
  proof (cases "r = k - 1")
    case True
    then have e: "a + 1 = k * (q + 1) + 0" using a by (simp add: algebra_simps)
    have "(a + 1) div k = q + 1"
      by (rule int_div_pos_eq [OF e]) (use assms in simp_all)
    moreover have "(a + 1) mod k = 0"
      by (rule int_mod_pos_eq [OF e]) (use assms in simp_all)
    ultimately show ?thesis by (simp add: q_def)
  next
    case False
    then have r1: "r + 1 < k" using rk by simp
    have e: "a + 1 = k * q + (r + 1)" using a by simp
    have "(a + 1) div k = q"
      by (rule int_div_pos_eq [OF e]) (use r0 r1 in simp_all)
    moreover have "(a + 1) mod k = r + 1"
      by (rule int_mod_pos_eq [OF e]) (use r0 r1 in simp_all)
    ultimately show ?thesis using r0 by (simp add: q_def)
  qed
qed

lemma dvd_sub_const: "k dvd c \<Longrightarrow> (k dvd a - c) = (k dvd a)" for a c k :: int
  using dvd_add [of k "a - c" c] dvd_diff [of k a c] by auto

text \<open>The first day of the next year is \<open>DaysInYear\<close> days on.\<close>

lemma DayFromYear_Suc: "DayFromYear (yr + 1) = DayFromYear yr + DaysInYear yr"
proof -
  have m4: "(yr - 1968) mod 4 = 0 \<longleftrightarrow> yr mod 4 = 0" by presburger
  have m100: "(yr - 1900) mod 100 = 0 \<longleftrightarrow> yr mod 100 = 0"
    by (simp add: mod_eq_0_iff_dvd dvd_sub_const)
  have m400: "(yr - 1600) mod 400 = 0 \<longleftrightarrow> yr mod 400 = 0"
    by (simp add: mod_eq_0_iff_dvd dvd_sub_const)
  have a: "(yr + 1 - 1969) div 4 = (yr - 1969) div 4 + (if yr mod 4 = 0 then 1 else 0)"
    using div_step [of 4 "yr - 1969"] m4 by (simp add: algebra_simps)
  have b: "(yr + 1 - 1901) div 100 = (yr - 1901) div 100 + (if yr mod 100 = 0 then 1 else 0)"
    using div_step [of 100 "yr - 1901"] m100 by (simp add: algebra_simps)
  have c: "(yr + 1 - 1601) div 400 = (yr - 1601) div 400 + (if yr mod 400 = 0 then 1 else 0)"
    using div_step [of 400 "yr - 1601"] m400 by (simp add: algebra_simps)
  have d: "yr mod 400 = 0 \<Longrightarrow> yr mod 100 = 0" "yr mod 100 = 0 \<Longrightarrow> yr mod 4 = 0"
    by (simp_all add: mod_eq_0_iff_dvd)
      (use dvd_trans [of 100 400 yr] dvd_trans [of 4 100 yr] in simp_all)
  show ?thesis
    unfolding DayFromYear_def DaysInYear_def a b c using d by auto
qed

text \<open>The first day of a year is within two days of 365.2425 days a year.\<close>

lemma DayFromYear_dev:
  "146097 * (yr - 1970) - 506 \<le> 400 * DayFromYear yr"
  "400 * DayFromYear yr \<le> 146097 * (yr - 1970) + 589"
proof -
  define q4 q100 q400 where "q4 = (yr - 1969) div 4" and "q100 = (yr - 1901) div 100"
    and "q400 = (yr - 1601) div 400"
  define r4 r100 r400 where "r4 = (yr - 1969) mod 4" and "r100 = (yr - 1901) mod 100"
    and "r400 = (yr - 1601) mod 400"
  have b: "0 \<le> r4" "r4 \<le> 3" "0 \<le> r100" "r100 \<le> 99" "0 \<le> r400" "r400 \<le> 399"
    using pos_mod_bound [of 4 "yr - 1969"] pos_mod_bound [of 100 "yr - 1901"]
      pos_mod_bound [of 400 "yr - 1601"]
    by (simp_all add: r4_def r100_def r400_def)
  have e: "4 * q4 = yr - 1969 - r4" "100 * q100 = yr - 1901 - r100" "400 * q400 = yr - 1601 - r400"
    unfolding r4_def r100_def r400_def q4_def q100_def q400_def
    by (simp_all add: minus_mod_eq_mult_div [symmetric])
  have s: "400 * q4 = 100 * (yr - 1969 - r4)" "400 * q100 = 4 * (yr - 1901 - r100)"
    using e by simp_all
  have D: "400 * DayFromYear yr = 146097 * (yr - 1970) + 193 - 100 * r4 + 4 * r100 - r400"
    using s e(3) by (simp add: DayFromYear_def q4_def q100_def q400_def algebra_simps)
  show "146097 * (yr - 1970) - 506 \<le> 400 * DayFromYear yr"
    unfolding D using b by simp
  show "400 * DayFromYear yr \<le> 146097 * (yr - 1970) + 589"
    unfolding D using b by simp
qed

lemma DayFromYear_mono: "yr \<le> yr' \<Longrightarrow> DayFromYear yr \<le> DayFromYear yr'"
proof (induction yr' rule: int_ge_induct)
  case base
  show ?case by simp
next
  case (step i)
  have "0 \<le> DaysInYear i" by (simp add: DaysInYear_def)
  with step show ?case by (simp add: DayFromYear_Suc)
qed

text \<open>\<open>YearFromDay\<close> is the year the day lies in.\<close>

lemma YearFromDay_bounds:
  "DayFromYear (YearFromDay day) \<le> day" "day < DayFromYear (YearFromDay day + 1)"
proof -
  define e where "e = 1970 + (day * 400) div 146097"
  define q r where "q = (day * 400) div 146097" and "r = (day * 400) mod 146097"
  have qr: "day * 400 = 146097 * q + r" "0 \<le> r" "r < 146097"
    by (simp_all add: q_def r_def)
  have eq: "e - 1970 = q" by (simp add: e_def q_def)
  have "400 * DayFromYear (e - 1) \<le> 146097 * q - 146097 + 589"
    using DayFromYear_dev(2) [of "e - 1"] eq by (simp add: algebra_simps)
  then have "400 * DayFromYear (e - 1) \<le> 400 * day" using qr by simp
  then have lo: "DayFromYear (e - 1) \<le> day" by simp
  have "146097 * q + 2 * 146097 - 506 \<le> 400 * DayFromYear (e + 1 + 1)"
    using DayFromYear_dev(1) [of "e + 1 + 1"] eq by (simp add: algebra_simps)
  then have "400 * day < 400 * DayFromYear (e + 1 + 1)" using qr by simp
  then have hi: "day < DayFromYear (e + 1 + 1)" by simp
  have Y: "YearFromDay day = (if DayFromYear (e + 1) \<le> day then e + 1
      else if DayFromYear e \<le> day then e else e - 1)"
    by (simp add: YearFromDay_def e_def Let_def)
  show "DayFromYear (YearFromDay day) \<le> day"
    unfolding Y using lo by simp
  show "day < DayFromYear (YearFromDay day + 1)"
    unfolding Y using hi by simp
qed

lemma YearFromDay_eq:
  assumes "0 \<le> k" and "k < DaysInYear yr"
  shows "YearFromDay (DayFromYear yr + k) = yr"
proof -
  let ?day = "DayFromYear yr + k"
  let ?r = "YearFromDay ?day"
  have lo: "DayFromYear ?r \<le> ?day" and hi: "?day < DayFromYear (?r + 1)"
    by (rule YearFromDay_bounds)+
  have "\<not> ?r < yr"
  proof
    assume "?r < yr"
    then have "DayFromYear (?r + 1) \<le> DayFromYear yr" by (intro DayFromYear_mono) simp
    with hi assms show False by simp
  qed
  moreover have "\<not> yr < ?r"
  proof
    assume "yr < ?r"
    then have "DayFromYear (yr + 1) \<le> DayFromYear ?r" by (intro DayFromYear_mono) simp
    with lo assms show False by (simp add: DayFromYear_Suc)
  qed
  ultimately show ?thesis by simp
qed

lemma Day_times: "Day (x * msPerDay) = x"
  by (simp add: Day_def msPerDay_def)

lemma DaysInYear_cases: "DaysInYear yr = 365 \<or> DaysInYear yr = 366"
  by (simp add: DaysInYear_def)

lemma month_cases:
  fixes m :: int
  assumes "0 \<le> m" "m \<le> 11"
  shows "m = 0 \<or> m = 1 \<or> m = 2 \<or> m = 3 \<or> m = 4 \<or> m = 5 \<or> m = 6 \<or> m = 7 \<or> m = 8
    \<or> m = 9 \<or> m = 10 \<or> m = 11"
  using assms by arith

text \<open>The day of the month of day \<open>d\<close> of a month is \<open>d\<close>.\<close>

lemma DateFromTime_MakeDay:
  assumes m: "0 \<le> m" "m \<le> 11" and d: "1 \<le> d" "d \<le> month_length yr m"
  shows "DateFromTime (MakeDay yr m d * msPerDay) = d"
proof -
  define leap :: int where "leap = (if DaysInYear yr = 366 then 1 else 0)"
  define k where "k = month_start yr m + d - 1"
  have leap: "leap = 0 \<or> leap = 1" by (simp add: leap_def)
  have diy: "DaysInYear yr = 365 + leap"
    using DaysInYear_cases [of yr] by (auto simp: leap_def)
  have ms: "month_start yr m =
      [0, 31, 59, 90, 120, 151, 181, 212, 243, 273, 304, 334] ! nat m + (if 2 \<le> m then leap else 0)"
    by (simp add: month_start_def leap_def)
  have ml: "month_length yr m =
      (if m = 1 then 28 + leap else if m = 3 \<or> m = 5 \<or> m = 8 \<or> m = 10 then 30 else 31)"
    by (simp add: month_length_def leap_def)
  have md: "MakeDay yr m d = DayFromYear yr + k"
    using m by (simp add: MakeDay_def Let_def k_def)
  have k: "0 \<le> k \<and> k < DaysInYear yr"
    unfolding k_def ms diy
    using month_cases [OF m] d [unfolded ml] leap
    by (elim disjE) simp_all
  have yr: "YearFromTime ((DayFromYear yr + k) * msPerDay) = yr"
    using k by (simp add: YearFromTime_def Day_times YearFromDay_eq)
  have dwy: "DayWithinYear ((DayFromYear yr + k) * msPerDay) = k"
    by (simp add: DayWithinYear_def yr Day_times)
  have il: "InLeapYear ((DayFromYear yr + k) * msPerDay) = leap"
    by (simp add: InLeapYear_def yr leap_def)
  show ?thesis
    unfolding md DateFromTime_def dwy il Let_def
    unfolding k_def ms
    using month_cases [OF m] d [unfolded ml] leap
    by (elim disjE) simp_all
qed

lemma month_length_range: "month_length yr m \<in> {28, 29, 30, 31}"
  by (simp add: month_length_def)

lemma MakeDay_next_month:
  assumes m: "0 \<le> m" "m \<le> 11"
  shows "MakeDay yr (m + 1) 1 - 1 = MakeDay yr m (month_length yr m)"
  using month_cases [OF m] DaysInYear_cases [of yr]
  by (elim disjE)
    (simp_all add: MakeDay_def Let_def month_start_def month_length_def DayFromYear_Suc)

text \<open>A year from 1 to 99, read as 1900 + year, has the months of that year.\<close>

lemma DaysInYear_two_digit:
  assumes "1 \<le> yr" "yr \<le> 99"
  shows "DaysInYear (1900 + yr) = DaysInYear yr"
proof -
  have a: "(1900 + yr) mod 4 = yr mod 4" by presburger
  have "(1900 + yr) mod 100 = (yr + 100 * 19) mod 100" by (simp add: add.commute)
  also have "\<dots> = yr mod 100" by (rule mod_mult_self2)
  finally have b: "(1900 + yr) mod 100 = yr mod 100" .
  have c: "yr mod 100 = yr" using assms by simp
  show ?thesis using assms by (simp add: DaysInYear_def a b c)
qed

lemma getDate_new_Date:
  assumes y: "1 \<le> yyyy" and m: "0 \<le> m" "m \<le> 11" and d: "1 \<le> d" "d \<le> month_length yyyy m"
  shows "getDate (new_Date yyyy m d) = d"
proof -
  define yr where "yr = (if 0 \<le> yyyy \<and> yyyy \<le> 99 then 1900 + yyyy else yyyy)"
  have diy: "DaysInYear yr = DaysInYear yyyy"
    using y DaysInYear_two_digit [of yyyy] by (simp add: yr_def)
  have ml: "month_length yr m = month_length yyyy m"
    by (simp add: month_length_def diy)
  have "DateFromTime (MakeDay yr m d * msPerDay) = d"
    using d by (intro DateFromTime_MakeDay m) (simp_all add: ml)
  then show ?thesis by (simp add: getDate_eq new_Date_eq Let_def yr_def)
qed

lemma getDate_month_end:
  assumes y: "1 \<le> yyyy" and m: "0 \<le> m" "m \<le> 11"
  shows "getDate (new_Date yyyy (m + 1) 1 - 24 * 60 * 60 * 1000) = month_length yyyy m"
proof -
  define yr where "yr = (if 0 \<le> yyyy \<and> yyyy \<le> 99 then 1900 + yyyy else yyyy)"
  have diy: "DaysInYear yr = DaysInYear yyyy"
    using y DaysInYear_two_digit [of yyyy] by (simp add: yr_def)
  have ml: "month_length yr m = month_length yyyy m"
    by (simp add: month_length_def diy)
  have "new_Date yyyy (m + 1) 1 - 24 * 60 * 60 * 1000 = (MakeDay yr (m + 1) 1 - 1) * msPerDay"
    by (simp add: new_Date_eq Let_def yr_def msPerDay_def algebra_simps)
  also have "\<dots> = MakeDay yr m (month_length yr m) * msPerDay"
    by (simp only: MakeDay_next_month [OF m])
  finally have e: "new_Date yyyy (m + 1) 1 - 24 * 60 * 60 * 1000
      = MakeDay yr m (month_length yr m) * msPerDay" .
  have "1 \<le> month_length yr m" by (simp add: month_length_def)
  then have "DateFromTime (MakeDay yr m (month_length yr m) * msPerDay) = month_length yr m"
    by (intro DateFromTime_MakeDay m) simp_all
  then show ?thesis by (simp only: getDate_eq e ml)
qed

lemmas date_defs = getDate_eq DateFromTime_def DayWithinYear_def InLeapYear_def YearFromTime_def
  YearFromDay_def Day_def msPerDay_def DayFromYear_def DaysInYear_def new_Date_eq MakeDay_def
  month_start_def month_length_def Let_def

text \<open>
  In a zone whose offset never changes, \<open>monthMeta_\<close> is right: for every year from 1
  on, every month and every day of it, \<open>daysInMonth\<close> is the length of the month and
  \<open>daysElapsed\<close> is the day.
\<close>

lemma monthMeta_fixed_offset:
  assumes z: "transitions z = []"
    and "1 \<le> yyyy" and "1 \<le> M" and "M \<le> 12" and "1 \<le> d" and "d \<le> month_length yyyy (M - 1)"
  shows "daysInMonth (monthMeta z yyyy M d tz') = month_length yyyy (M - 1)
    \<and> daysInMonth (monthMeta z yyyy M d tz') \<in> {28, 29, 30, 31}
    \<and> daysElapsed (monthMeta z yyyy M d tz') = d
    \<and> 1 \<le> daysElapsed (monthMeta z yyyy M d tz')
    \<and> daysElapsed (monthMeta z yyyy M d tz') \<le> daysInMonth (monthMeta z yyyy M d tz')"
proof -
  have n: "new_Date_in z yr m dd = new_Date yr m dd - base_offset z" for yr m dd
    by (simp add: new_Date_in_def new_Date_eq UTC_def LocalTZA_def z Let_def)
  have g: "getDate_in z t = getDate (t + base_offset z)" for t
    by (simp add: getDate_in_def getDate_eq LocalTime_def LocalTZA_def z)
  have "getDate_in z (new_Date_in z yyyy (M - 1 + 1) 1 - 24 * 60 * 60 * 1000)
      = getDate (new_Date yyyy (M - 1 + 1) 1 - 24 * 60 * 60 * 1000)"
    by (simp add: n g)
  also have "\<dots> = month_length yyyy (M - 1)"
    using assms by (intro getDate_month_end) simp_all
  finally have dim: "daysInMonth (monthMeta z yyyy M d tz') = month_length yyyy (M - 1)"
    by (simp add: monthMeta_def Let_def)
  have de: "daysElapsed (monthMeta z yyyy M d tz') = min d (daysInMonth (monthMeta z yyyy M d tz'))"
    by (simp add: monthMeta_def Let_def)
  show ?thesis
    using assms month_length_range [of yyyy "M - 1"] by (simp add: dim de)
qed

text \<open>The steps of \<open>monthMeta_\<close> on 31 March 2024 in the zone of London.\<close>

lemma MakeDay_2024_3_1: "MakeDay 2024 3 1 = 19814"
  by (simp add: MakeDay_def month_start_def DayFromYear_def DaysInYear_def Let_def)

lemma new_Date_in_london_2024_3_1: "new_Date_in
      \<lparr>base_offset = 0, transitions = [(1711846800000, 3600000), (1729990800000, 0)]\<rparr>
      2024 3 1 = 1711926000000"
  by (simp add: new_Date_in_def UTC_def LocalTZA_def MakeDay_2024_3_1 msPerDay_def)

lemma LocalTime_london_before_april: "LocalTime \<lparr>base_offset = 0, transitions = [(1711846800000, 3600000), (1729990800000, 0)]\<rparr>
     (1711926000000 - 24 * 60 * 60 * 1000) = 1711839600000"
  by (simp add: LocalTime_def LocalTZA_def)

lemma DateFromTime_30_march_23h: "DateFromTime 1711839600000 = 30"
  by (simp add: DateFromTime_def DayWithinYear_def InLeapYear_def YearFromTime_def
      YearFromDay_def Day_def msPerDay_def DayFromYear_def DaysInYear_def Let_def)

lemma new_Date_30_march_23h: "new_Date 2024 2 30 + 23 * 60 * 60 * 1000 = 1711839600000"
  by (simp add: new_Date_eq MakeDay_def month_start_def DayFromYear_def DaysInYear_def Let_def msPerDay_def)

text \<open>
  C8 fails where the clock is put forward on the last day of a month. The zone below is
  that of London in 2024: summer time from 31 March, 01:00 UTC, to 27 October, 01:00 UTC.
  On 31 March 2024, \<open>next\<close> is midnight of 1 April, summer time; 24 hours before it is
  30 March, 23:00, as the last day of March has 23 hours. \<open>monthMeta_\<close> returns
  \<open>daysInMonth = 30\<close> for a month of 31 days, and \<open>daysElapsed = 30\<close> on its 31st day.
\<close>

theorem C8_monthMeta_last_day_of_23_hours:
  "daysInMonth (monthMeta
      \<lparr>base_offset = 0, transitions = [(1711846800000, 3600000), (1729990800000, 0)]\<rparr>
      2024 3 31 ''Europe/London'') = 30
   \<and> daysElapsed (monthMeta
      \<lparr>base_offset = 0, transitions = [(1711846800000, 3600000), (1729990800000, 0)]\<rparr>
      2024 3 31 ''Europe/London'') = 30
   \<and> month_length 2024 2 = 31
   \<and> new_Date_in
      \<lparr>base_offset = 0, transitions = [(1711846800000, 3600000), (1729990800000, 0)]\<rparr>
      2024 3 1 - 24 * 60 * 60 * 1000 = new_Date 2024 2 30 + 23 * 60 * 60 * 1000"
proof -
  let ?z = "\<lparr>base_offset = 0, transitions = [(1711846800000, 3600000), (1729990800000, 0)]\<rparr>"
  have g: "getDate_in ?z (new_Date_in ?z 2024 3 1 - 24 * 60 * 60 * 1000) = 30"
    unfolding getDate_in_def new_Date_in_london_2024_3_1 LocalTime_london_before_april
      DateFromTime_30_march_23h ..
  have a: "daysInMonth (monthMeta ?z 2024 3 31 ''Europe/London'') = 30"
    using g by (simp add: monthMeta_def Let_def)
  have b: "daysElapsed (monthMeta ?z 2024 3 31 ''Europe/London'') = 30"
    using g by (simp add: monthMeta_def Let_def)
  have c: "month_length 2024 2 = 31" by (simp add: month_length_def)
  have d: "new_Date_in ?z 2024 3 1 - 24 * 60 * 60 * 1000 = new_Date 2024 2 30 + 23 * 60 * 60 * 1000"
    unfolding new_Date_in_london_2024_3_1 new_Date_30_march_23h by simp
  from a b c d show ?thesis by blast
qed

section \<open>Properties of the per-day series\<close>

text \<open>What the first loop leaves under a key, when the costs are finite.\<close>

lemma byDay_get_loop:
  "byDay_get byDay d = Fin r \<Longrightarrow>
   byDay_get (byDay_loop (map (\<lambda>(t, c). \<lparr>date = t, cost = Fin c\<rparr>) os) byDay) d
     = Fin (r + sum_list (map snd (filter (\<lambda>(t, c). getDate t = d) os)))"
proof (induction os arbitrary: byDay r)
  case Nil
  then show ?case by simp
next
  case (Cons ob os)
  obtain t c where ob: "ob = (t, c)" by (cases ob)
  let ?mk = "\<lambda>(t, c). \<lparr>date = t, cost = Fin c\<rparr>"
  let ?m = "byDay(getDate t \<mapsto> js_add (byDay_get byDay (getDate t)) (js_or (Fin c) (Fin 0)))"
  have g: "byDay_get ?m d = Fin (if getDate t = d then r + c else r)"
    using Cons.prems by (simp add: byDay_get_def js_or_Fin0)
  have eq: "byDay_loop (map ?mk (ob # os)) byDay = byDay_loop (map ?mk os) ?m"
    by (simp add: ob Let_def)
  show ?case
    by (subst eq, subst Cons.IH [OF g]) (simp add: ob add.assoc)
qed

text \<open>The rows the second loop pushes, from day \<open>d\<close> on.\<close>

lemma rows_loop_eq:
  fixes B td c :: real and f :: "int \<Rightarrow> real"
  assumes get: "\<And>k. byDay_get byDay k = Fin (f k)"
  shows "rows_loop byDay (Fin B) mCtx (Fin td) d perDay (Fin c)
    = perDay @ map (\<lambda>k.
        \<lparr>date = new_Date (y mCtx) (m0 mCtx) k,
         cost = Fin (f k),
         cumSpend = Fin (c + sum_list (map f [d..k])),
         targetDaily = Fin td,
         cumTarget = Fin (td * of_int k),
         gap = Fin (f k - td),
         cumGap = Fin (c + sum_list (map f [d..k]) - td * of_int k),
         runningPacePct = Fin (if 0 < B then (c + sum_list (map f [d..k])) / B else 0),
         recDaily = Fin (if k < daysInMonth mCtx
                         then max ((B - (c + sum_list (map f [d..k]))) / of_int (daysInMonth mCtx - k)) 0
                         else 0),
         cumForecastWma = None,
         projectedEomWmaAtDay = None\<rparr>) [d..daysInMonth mCtx]"
proof (induction "nat (daysInMonth mCtx + 1 - d)" arbitrary: d perDay c)
  case 0
  then have "\<not> d \<le> daysInMonth mCtx" by simp
  then show ?case by (simp add: rows_loop.simps)
next
  case (Suc n)
  then have le: "d \<le> daysInMonth mCtx" and n: "n = nat (daysInMonth mCtx + 1 - (d + 1))"
    by simp_all
  have up: "[d..daysInMonth mCtx] = d # [d + 1..daysInMonth mCtx]"
    using le by (simp add: upto_rec1)
  have inner: "\<And>k. d + 1 \<le> k \<Longrightarrow> [d..k] = d # [d + 1..k]"
    by (simp add: upto_rec1)
  have dd: "[d..d] = [d]" by simp
  show ?case
    apply (subst rows_loop.simps)
    apply (simp only: le if_True Let_def get)
    apply (simp only: js_add.simps js_sub_Fin js_mul_num js_gt_Fin js_div.simps)
    apply (subst Suc.hyps(1) [OF n])
    apply (subst up)
    apply (simp add: dd inner js_div_num Math_max_Fin add.assoc cong: map_cong)
    done
qed

lemma buildPerDayRows_eq:
  fixes B :: real and os :: "(int \<times> real) list" and mCtx :: MonthContext
  defines "D \<equiv> daysInMonth mCtx"
  defines "cost_on \<equiv> \<lambda>d. sum_list (map snd (filter (\<lambda>(t, c). getDate t = d) os))"
  defines "cum \<equiv> \<lambda>d. sum_list (map cost_on [1..d])"
  shows "buildPerDayRows (map (\<lambda>(t, c). \<lparr>date = t, cost = Fin c\<rparr>) os) (Fin B) mCtx
    = map (\<lambda>d.
        \<lparr>date = new_Date (y mCtx) (m0 mCtx) d,
         cost = Fin (cost_on d),
         cumSpend = Fin (cum d),
         targetDaily = Fin (B / of_int D),
         cumTarget = Fin (B / of_int D * of_int d),
         gap = Fin (cost_on d - B / of_int D),
         cumGap = Fin (cum d - B / of_int D * of_int d),
         runningPacePct = Fin (if 0 < B then cum d / B else 0),
         recDaily = Fin (if d < D then max ((B - cum d) / of_int (D - d)) 0 else 0),
         cumForecastWma = None,
         projectedEomWmaAtDay = None\<rparr>) [1..D]"
proof -
  let ?byDay = "byDay_loop (map (\<lambda>(t, c). \<lparr>date = t, cost = Fin c\<rparr>) os) Map.empty"
  have get: "\<And>k. byDay_get ?byDay k = Fin (cost_on k)"
    using byDay_get_loop [of Map.empty _ 0 os] by (simp add: byDay_get_def cost_on_def)
  show ?thesis
  proof (cases "0 < D")
    case True
    then have td: "build_targetDaily (Fin B) mCtx = Fin (B / of_int D)"
      by (simp add: build_targetDaily_def D_def js_div_num)
    show ?thesis
      unfolding buildPerDayRows_def Let_def td
      by (subst rows_loop_eq [OF get]) (simp add: cum_def D_def)
  next
    case False
    then have td: "build_targetDaily (Fin B) mCtx = Fin 0"
      by (simp add: build_targetDaily_def D_def)
    from False have e: "[1..D] = []" by simp
    show ?thesis
      unfolding buildPerDayRows_def Let_def td
      by (subst rows_loop_eq [OF get]) (simp add: e [unfolded D_def] D_def)
  qed
qed

lemma new_Date_less: "d < d' \<Longrightarrow> new_Date yr m d < new_Date yr m d'"
  by (simp add: new_Date_eq MakeDay_def Let_def msPerDay_def)

lemma sorted_new_Date: "sorted_wrt (<) (map (new_Date yr m) [i..j])"
  by (simp add: sorted_wrt_map new_Date_less sorted_wrt_mono_rel [OF _ sorted_wrt_upto])

text \<open>
  C1. For every monthly budget \<open>B \<ge> 0\<close>, every month context with
  \<open>daysInMonth = D \<ge> 1\<close> and every list of (date, cost) observations,
  \<open>buildPerDayRows_\<close> returns exactly \<open>D\<close> rows in ascending date order, row \<open>d\<close>
  dated day \<open>d\<close> of the context's month (its day of the month is \<open>d\<close> when the context
  is a month of the calendar). In row \<open>d\<close>: \<open>cost\<close> is the sum of the costs of the
  observations whose day of the month is \<open>d\<close> (0 when there is none), \<open>cumSpend\<close> is
  the sum of \<open>cost\<close> over rows 1 to \<open>d\<close> (on the last row: over all rows),
  \<open>targetDaily = B / D\<close>, \<open>cumTarget = targetDaily * d\<close>, \<open>gap = cost - targetDaily\<close>,
  \<open>cumGap = cumSpend - cumTarget\<close>, and \<open>recDaily = max ((B - cumSpend) / (D - d)) 0\<close>
  when \<open>d < D\<close> and 0 when \<open>d = D\<close>.
\<close>

theorem C1_buildPerDayRows:
  fixes B :: real and os :: "(int \<times> real) list" and mCtx :: MonthContext
  defines "D \<equiv> daysInMonth mCtx"
  defines "cost_on \<equiv> \<lambda>d. sum_list (map snd (filter (\<lambda>(t, c). getDate t = d) os))"
  defines "cum \<equiv> \<lambda>d. sum_list (map cost_on [1..d])"
  defines "rows \<equiv> buildPerDayRows (map (\<lambda>(t, c). \<lparr>date = t, cost = Fin c\<rparr>) os) (Fin B) mCtx"
  assumes "0 \<le> B" and "1 \<le> D"
  shows "rows = map (\<lambda>d.
        \<lparr>date = new_Date (y mCtx) (m0 mCtx) d,
         cost = Fin (cost_on d),
         cumSpend = Fin (cum d),
         targetDaily = Fin (B / of_int D),
         cumTarget = Fin (B / of_int D * of_int d),
         gap = Fin (cost_on d - B / of_int D),
         cumGap = Fin (cum d - B / of_int D * of_int d),
         runningPacePct = Fin (if 0 < B then cum d / B else 0),
         recDaily = Fin (if d < D then max ((B - cum d) / of_int (D - d)) 0 else 0),
         cumForecastWma = None,
         projectedEomWmaAtDay = None\<rparr>) [1..D]
    \<and> length rows = nat D
    \<and> sorted_wrt (<) (map date rows)
    \<and> (1 \<le> y mCtx \<and> 0 \<le> m0 mCtx \<and> m0 mCtx \<le> 11 \<and> D \<le> month_length (y mCtx) (m0 mCtx)
        \<longrightarrow> map (\<lambda>r. getDate (date r)) rows = [1..D])
    \<and> map cost rows = map (\<lambda>d. Fin (cost_on d)) [1..D]
    \<and> cumSpend (last rows) = Fin (sum_list (map cost_on [1..D]))"
proof -
  have eq: "rows = map (\<lambda>d.
        \<lparr>date = new_Date (y mCtx) (m0 mCtx) d,
         cost = Fin (cost_on d),
         cumSpend = Fin (cum d),
         targetDaily = Fin (B / of_int D),
         cumTarget = Fin (B / of_int D * of_int d),
         gap = Fin (cost_on d - B / of_int D),
         cumGap = Fin (cum d - B / of_int D * of_int d),
         runningPacePct = Fin (if 0 < B then cum d / B else 0),
         recDaily = Fin (if d < D then max ((B - cum d) / of_int (D - d)) 0 else 0),
         cumForecastWma = None,
         projectedEomWmaAtDay = None\<rparr>) [1..D]"
    unfolding rows_def D_def cum_def cost_on_def by (rule buildPerDayRows_eq)
  have ne: "[1..D] \<noteq> []" using \<open>1 \<le> D\<close> by simp
  have len: "length rows = nat D" by (simp add: eq)
  have srt: "sorted_wrt (<) (map date rows)"
    using sorted_new_Date [of "y mCtx" "m0 mCtx" 1 D] by (simp add: eq comp_def)
  have cal: "map (\<lambda>r. getDate (date r)) rows = [1..D]"
    if "1 \<le> y mCtx \<and> 0 \<le> m0 mCtx \<and> m0 mCtx \<le> 11 \<and> D \<le> month_length (y mCtx) (m0 mCtx)"
  proof -
    have "map (\<lambda>d. getDate (new_Date (y mCtx) (m0 mCtx) d)) [1..D] = map (\<lambda>d. d) [1..D]"
      using that by (intro map_cong refl getDate_new_Date) simp_all
    then show ?thesis by (simp add: eq comp_def)
  qed
  have lst: "cumSpend (last rows) = Fin (sum_list (map cost_on [1..D]))"
    using ne \<open>1 \<le> D\<close> by (simp add: eq last_map cum_def upto_rec2 [of 1 D])
  have cst: "map cost rows = map (\<lambda>d. Fin (cost_on d)) [1..D]"
    by (simp add: eq comp_def)
  from eq len srt lst cst cal show ?thesis by blast
qed

text \<open>February 2023: 100 on the 1st, 50 and 25 on the 2nd.\<close>

theorem C1_buildPerDayRows_witness:
  "length (buildPerDayRows
      [\<lparr>date = new_Date 2023 1 1, cost = Fin 100\<rparr>, \<lparr>date = new_Date 2023 1 2, cost = Fin 50\<rparr>,
       \<lparr>date = new_Date 2023 1 2, cost = Fin 25\<rparr>]
      (Fin 2800) \<lparr>tz = ''UTC'', y = 2023, m0 = 1, first = new_Date 2023 1 1, daysInMonth = 28, daysElapsed = 2\<rparr>) = 28
   \<and> cumSpend (last (buildPerDayRows
      [\<lparr>date = new_Date 2023 1 1, cost = Fin 100\<rparr>, \<lparr>date = new_Date 2023 1 2, cost = Fin 50\<rparr>,
       \<lparr>date = new_Date 2023 1 2, cost = Fin 25\<rparr>]
      (Fin 2800) \<lparr>tz = ''UTC'', y = 2023, m0 = 1, first = new_Date 2023 1 1, daysInMonth = 28, daysElapsed = 2\<rparr>)) = Fin 175"
proof -
  let ?os = "[(new_Date 2023 1 1, 100), (new_Date 2023 1 2, 50), (new_Date 2023 1 2, 25 :: real)]"
  let ?ctx = "\<lparr>tz = ''UTC'', y = 2023, m0 = 1, first = new_Date 2023 1 1, daysInMonth = 28, daysElapsed = 2\<rparr>"
  have g: "getDate (new_Date 2023 1 1) = 1" "getDate (new_Date 2023 1 2) = 2"
    by (simp_all add: date_defs)
  have u: "[1..28::int] = [1,2,3,4,5,6,7,8,9,10,11,12,13,14,15,16,17,18,19,20,21,22,23,24,25,26,27,28]"
    by (simp add: upto_rec1)
  have h: "(0::real) \<le> 2800" "1 \<le> daysInMonth ?ctx" by simp_all
  note c = C1_buildPerDayRows [where B = 2800 and os = ?os and mCtx = ?ctx, OF h]
  from c [THEN conjunct2, THEN conjunct1] have len: "length (buildPerDayRows
      (map (\<lambda>(t, c). \<lparr>date = t, cost = Fin c\<rparr>) ?os) (Fin 2800) ?ctx) = 28"
    by simp
  from c [THEN conjunct2, THEN conjunct2, THEN conjunct2, THEN conjunct2, THEN conjunct2]
  have lst: "cumSpend (last (buildPerDayRows
      (map (\<lambda>(t, c). \<lparr>date = t, cost = Fin c\<rparr>) ?os) (Fin 2800) ?ctx)) = Fin 175"
    by (simp add: g u)
  from len lst show ?thesis by simp
qed

subsection \<open>Observations the second loop never reads\<close>

lemma byDay_loop_append: "byDay_loop (xs @ ys) byDay = byDay_loop ys (byDay_loop xs byDay)"
  by (induction xs arbitrary: byDay) (simp_all add: Let_def)

lemma byDay_get_cong:
  "byDay_get m1 k = byDay_get m2 k \<Longrightarrow>
   byDay_get (byDay_loop ys m1) k = byDay_get (byDay_loop ys m2) k"
proof (induction ys arbitrary: m1 m2)
  case Nil
  then show ?case by simp
next
  case (Cons ob ys)
  let ?day = "getDate (date ob)"
  let ?c = "js_or (cost ob) (Fin 0)"
  have step: "byDay_get (m1(?day \<mapsto> js_add (byDay_get m1 ?day) ?c)) k
      = byDay_get (m2(?day \<mapsto> js_add (byDay_get m2 ?day) ?c)) k"
  proof (cases "?day = k")
    case True
    with Cons.prems show ?thesis by (simp add: byDay_get_def [of "_(_ \<mapsto> _)"])
  next
    case False
    with Cons.prems show ?thesis by (simp add: byDay_get_def)
  qed
  show ?case
    unfolding byDay_loop.simps Let_def by (rule Cons.IH [OF step])
qed

lemma rows_loop_cong:
  assumes "\<And>k. d \<le> k \<Longrightarrow> k \<le> daysInMonth mCtx \<Longrightarrow> byDay_get m1 k = byDay_get m2 k"
  shows "rows_loop m1 monthlyBudget mCtx td d perDay cum
       = rows_loop m2 monthlyBudget mCtx td d perDay cum"
  using assms
proof (induction "nat (daysInMonth mCtx + 1 - d)" arbitrary: d perDay cum)
  case 0
  then have "\<not> d \<le> daysInMonth mCtx" by simp
  then show ?case by (simp add: rows_loop.simps)
next
  case (Suc n)
  then have le: "d \<le> daysInMonth mCtx" and n: "n = nat (daysInMonth mCtx + 1 - (d + 1))"
    by simp_all
  have g: "byDay_get m1 d = byDay_get m2 d" using Suc.prems le by simp
  have r: "\<And>perDay cum. rows_loop m1 monthlyBudget mCtx td (d + 1) perDay cum
       = rows_loop m2 monthlyBudget mCtx td (d + 1) perDay cum"
    using Suc.prems by (intro Suc.hyps(1) [OF n]) simp_all
  show ?case
    by (subst rows_loop.simps, subst (2) rows_loop.simps) (simp only: g r)
qed

text \<open>
  C9, as the code has it. For every observation whose day of the month (\<open>getDate\<close>) is
  outside \<open>1..daysInMonth\<close>, \<open>buildPerDayRows_\<close> returns the rows it returns
  without that observation, whatever the other observations, the budget and the costs
  are; the function has no failing path. (The loop files an observation under its day
  of the month alone, so an observation of another month whose day of the month is within
  \<open>1..daysInMonth\<close> is not ignored: see the counterexample.)
\<close>

theorem C9_out_of_month_ignored:
  assumes "getDate (date ob) < 1 \<or> daysInMonth mCtx < getDate (date ob)"
  shows "buildPerDayRows (xs @ ob # ys) monthlyBudget mCtx
       = buildPerDayRows (xs @ ys) monthlyBudget mCtx"
proof -
  let ?day = "getDate (date ob)"
  let ?M = "byDay_loop xs Map.empty"
  let ?M' = "?M(?day \<mapsto> js_add (byDay_get ?M ?day) (js_or (cost ob) (Fin 0)))"
  have a: "byDay_loop (xs @ ob # ys) Map.empty = byDay_loop ys ?M'"
    by (simp add: byDay_loop_append Let_def)
  have b: "byDay_loop (xs @ ys) Map.empty = byDay_loop ys ?M"
    by (simp add: byDay_loop_append)
  have "byDay_get (byDay_loop ys ?M') k = byDay_get (byDay_loop ys ?M) k"
    if "1 \<le> k" "k \<le> daysInMonth mCtx" for k
  proof -
    from that assms have "k \<noteq> ?day" by auto
    then have "byDay_get ?M' k = byDay_get ?M k" by (simp add: byDay_get_def)
    then show ?thesis by (rule byDay_get_cong)
  qed
  then show ?thesis
    unfolding buildPerDayRows_def Let_def a b by (intro rows_loop_cong) simp_all
qed

text \<open>30 March among the observations of February 2023.\<close>

theorem C9_out_of_month_ignored_witness:
  "buildPerDayRows
     [\<lparr>date = new_Date 2023 1 2, cost = Fin 50\<rparr>, \<lparr>date = new_Date 2023 2 30, cost = Fin 7\<rparr>,
      \<lparr>date = new_Date 2023 1 3, cost = Fin 20\<rparr>] (Fin 2800)
     \<lparr>tz = ''UTC'', y = 2023, m0 = 1, first = new_Date 2023 1 1, daysInMonth = 28, daysElapsed = 3\<rparr>
   = buildPerDayRows
     [\<lparr>date = new_Date 2023 1 2, cost = Fin 50\<rparr>, \<lparr>date = new_Date 2023 1 3, cost = Fin 20\<rparr>] (Fin 2800)
     \<lparr>tz = ''UTC'', y = 2023, m0 = 1, first = new_Date 2023 1 1, daysInMonth = 28, daysElapsed = 3\<rparr>"
proof -
  have g: "getDate (new_Date 2023 2 30) = 30" by (simp add: date_defs)
  show ?thesis
    using C9_out_of_month_ignored [of "\<lparr>date = new_Date 2023 2 30, cost = Fin 7\<rparr>"
        "\<lparr>tz = ''UTC'', y = 2023, m0 = 1, first = new_Date 2023 1 1, daysInMonth = 28, daysElapsed = 3\<rparr>"
        "[\<lparr>date = new_Date 2023 1 2, cost = Fin 50\<rparr>]"
        "[\<lparr>date = new_Date 2023 1 3, cost = Fin 20\<rparr>]" "Fin 2800"]
    by (simp add: g)
qed

text \<open>
  2 March lies outside the days 1 to 28 of February 2023, yet its cost is added to the
  row of 2 February: the rows differ from those without the observation.
\<close>

theorem C9_counterexample:
  "getDate (new_Date 2023 2 2) = 2
   \<and> new_Date 2023 1 28 < new_Date 2023 2 2
   \<and> cost (buildPerDayRows [\<lparr>date = new_Date 2023 2 2, cost = Fin 7\<rparr>] (Fin 2800)
        \<lparr>tz = ''UTC'', y = 2023, m0 = 1, first = new_Date 2023 1 1, daysInMonth = 28, daysElapsed = 3\<rparr> ! 1)
      = Fin 7
   \<and> cost (buildPerDayRows [] (Fin 2800)
        \<lparr>tz = ''UTC'', y = 2023, m0 = 1, first = new_Date 2023 1 1, daysInMonth = 28, daysElapsed = 3\<rparr> ! 1)
      = Fin 0
   \<and> buildPerDayRows [\<lparr>date = new_Date 2023 2 2, cost = Fin 7\<rparr>] (Fin 2800)
        \<lparr>tz = ''UTC'', y = 2023, m0 = 1, first = new_Date 2023 1 1, daysInMonth = 28, daysElapsed = 3\<rparr>
      \<noteq> buildPerDayRows [] (Fin 2800)
        \<lparr>tz = ''UTC'', y = 2023, m0 = 1, first = new_Date 2023 1 1, daysInMonth = 28, daysElapsed = 3\<rparr>"
proof -
  let ?ctx = "\<lparr>tz = ''UTC'', y = 2023, m0 = 1, first = new_Date 2023 1 1, daysInMonth = 28, daysElapsed = 3\<rparr>"
  have g: "getDate (new_Date 2023 2 2) = 2" by (simp add: date_defs)
  have l: "new_Date 2023 1 28 < new_Date 2023 2 2" by (simp add: date_defs)
  have n: "[1..28::int] ! 1 = 2" using nth_upto [of 1 1 28] by simp
  have a: "cost (buildPerDayRows [\<lparr>date = new_Date 2023 2 2, cost = Fin 7\<rparr>] (Fin 2800) ?ctx ! 1) = Fin 7"
    using buildPerDayRows_eq [where os = "[(new_Date 2023 2 2, 7)]" and B = 2800 and mCtx = ?ctx]
    by (simp add: n g)
  have b: "cost (buildPerDayRows [] (Fin 2800) ?ctx ! 1) = Fin 0"
    using buildPerDayRows_eq [where os = "[]" and B = 2800 and mCtx = ?ctx]
    by (simp add: n)
  from a b have "buildPerDayRows [\<lparr>date = new_Date 2023 2 2, cost = Fin 7\<rparr>] (Fin 2800) ?ctx
      \<noteq> buildPerDayRows [] (Fin 2800) ?ctx"
    by auto
  with g l a b show ?thesis by blast
qed

section \<open>Properties of the forecast\<close>

text \<open>The loop rewrites row \<open>k + 1\<close> (at index \<open>k\<close>) by \<open>forecast_row\<close> and nothing else.\<close>

lemma forecast_loop_length: "length (forecast_loop perDay mCtx spendMtd wmaDaily d) = length perDay"
proof (induction "nat (int (length perDay) + 1 - d)" arbitrary: d perDay)
  case 0
  then have "\<not> d \<le> int (length perDay)" by simp
  then show ?case by (simp add: forecast_loop.simps)
next
  case (Suc n)
  then have le: "d \<le> int (length perDay)" by simp
  let ?p = "perDay[nat (d - 1) := forecast_row mCtx spendMtd wmaDaily d (perDay ! nat (d - 1))]"
  have n: "n = nat (int (length ?p) + 1 - (d + 1))" using Suc.hyps(2) by simp
  show ?case
    by (subst forecast_loop.simps) (simp add: le Suc.hyps(1) [OF n])
qed

lemma forecast_loop_nth:
  assumes "1 \<le> d" and "k < length perDay"
  shows "forecast_loop perDay mCtx spendMtd wmaDaily d ! k
    = (if nat (d - 1) \<le> k then forecast_row mCtx spendMtd wmaDaily (int k + 1) (perDay ! k)
       else perDay ! k)"
  using assms
proof (induction "nat (int (length perDay) + 1 - d)" arbitrary: d perDay)
  case 0
  then have "\<not> d \<le> int (length perDay)" by simp
  with 0 show ?case by (simp add: forecast_loop.simps)
next
  case (Suc n)
  then have le: "d \<le> int (length perDay)" by simp
  let ?p = "perDay[nat (d - 1) := forecast_row mCtx spendMtd wmaDaily d (perDay ! nat (d - 1))]"
  have n: "n = nat (int (length ?p) + 1 - (d + 1))" using Suc.hyps(2) by simp
  have k: "k < length ?p" using Suc.prems by simp
  have d1: "1 \<le> d + 1" using Suc.prems by simp
  have e: "int (nat (d - 1)) + 1 = d" using Suc.prems by simp
  have nd: "nat (d + 1 - 1) = Suc (nat (d - 1))" using Suc.prems by simp
  have step: "forecast_loop perDay mCtx spendMtd wmaDaily d ! k
      = (if Suc (nat (d - 1)) \<le> k then forecast_row mCtx spendMtd wmaDaily (int k + 1) (?p ! k)
         else ?p ! k)"
    by (subst forecast_loop.simps) (simp only: le if_True Suc.hyps(1) [OF n d1 k] nd)
  consider (lt) "k < nat (d - 1)" | (eq) "k = nat (d - 1)" | (gt) "nat (d - 1) < k"
    by linarith
  then show ?case
  proof cases
    case lt
    then show ?thesis by (simp add: step)
  next
    case eq
    have pk: "?p ! nat (d - 1) = forecast_row mCtx spendMtd wmaDaily d (perDay ! nat (d - 1))"
      using Suc.prems(2) eq by simp
    have "forecast_loop perDay mCtx spendMtd wmaDaily d ! nat (d - 1) = ?p ! nat (d - 1)"
      using step [unfolded eq] by simp
    with pk show ?thesis
      unfolding eq using Suc.prems(1) by simp
  next
    case gt
    then show ?thesis by (simp add: step)
  qed
qed

lemma applyWmaForecast_nth:
  assumes "k < length perDay"
  shows "applyWmaForecast perDay mCtx spendMtd wmaDaily ! k
         = forecast_row mCtx spendMtd wmaDaily (int k + 1) (perDay ! k)"
  using forecast_loop_nth [of 1 k perDay mCtx spendMtd wmaDaily] assms
  by (simp add: applyWmaForecast_def)

lemma applyWmaForecast_eq:
  "applyWmaForecast perDay mCtx spendMtd wmaDaily
   = map (\<lambda>k. forecast_row mCtx spendMtd wmaDaily (int k + 1) (perDay ! k)) [0..<length perDay]"
  by (rule nth_equalityI)
    (simp_all add: applyWmaForecast_def forecast_loop_length applyWmaForecast_nth [unfolded applyWmaForecast_def])

text \<open>
  C3. For every series of length \<open>daysInMonth\<close>, every month context, every finite
  \<open>spendMtd\<close> and \<open>wmaDaily\<close>, and every day \<open>d\<close> from 1 to \<open>daysInMonth\<close> (whose
  row has a finite \<open>cumSpend\<close>): after \<open>applyWmaForecast_\<close>, \<open>cumForecastWma\<close> of
  day \<open>d\<close> is the day's \<open>cumSpend\<close> when \<open>d \<le> daysElapsed\<close> and
  \<open>spendMtd + wmaDaily * (d - daysElapsed)\<close> when \<open>d > daysElapsed\<close>, and
  \<open>projectedEomWmaAtDay\<close> is \<open>cumSpend + wmaDaily * (daysInMonth - d)\<close>.
\<close>

theorem C3_forecast_fields:
  fixes s w c :: real
  assumes "int (length perDay) = daysInMonth mCtx"
    and "1 \<le> d" and "d \<le> daysInMonth mCtx"
    and "cumSpend (perDay ! nat (d - 1)) = Fin c"
  shows "cumForecastWma (applyWmaForecast perDay mCtx (Fin s) (Fin w) ! nat (d - 1))
      = Some (Fin (if d \<le> daysElapsed mCtx then c else s + w * of_int (d - daysElapsed mCtx)))
    \<and> projectedEomWmaAtDay (applyWmaForecast perDay mCtx (Fin s) (Fin w) ! nat (d - 1))
      = Some (Fin (c + w * of_int (daysInMonth mCtx - d)))"
proof -
  have k: "nat (d - 1) < length perDay" using assms by linarith
  have e: "int (nat (d - 1)) + 1 = d" using assms by simp
  have "applyWmaForecast perDay mCtx (Fin s) (Fin w) ! nat (d - 1)
      = forecast_row mCtx (Fin s) (Fin w) d (perDay ! nat (d - 1))"
    by (simp only: applyWmaForecast_nth [OF k] e)
  then show ?thesis
    by (simp add: forecast_row_def Let_def assms(4) js_mul_num)
qed

text \<open>A month of two days, one elapsed: day 2 is extrapolated from \<open>spendMtd\<close>.\<close>

theorem C3_forecast_fields_witness:
  "cumForecastWma (applyWmaForecast
      [\<lparr>date = new_Date 2023 1 1, cost = Fin 100, cumSpend = Fin 100, targetDaily = Fin 100,
        cumTarget = Fin 100, gap = Fin 0, cumGap = Fin 0, runningPacePct = Fin (1 / 2),
        recDaily = Fin 100, cumForecastWma = None, projectedEomWmaAtDay = None\<rparr>,
       \<lparr>date = new_Date 2023 1 2, cost = Fin 0, cumSpend = Fin 100, targetDaily = Fin 100,
        cumTarget = Fin 200, gap = Fin (- 100), cumGap = Fin (- 100), runningPacePct = Fin (1 / 2),
        recDaily = Fin 0, cumForecastWma = None, projectedEomWmaAtDay = None\<rparr>]
      \<lparr>tz = ''UTC'', y = 2023, m0 = 1, first = new_Date 2023 1 1, daysInMonth = 2, daysElapsed = 1\<rparr>
      (Fin 110) (Fin 80) ! 1) = Some (Fin 190)
   \<and> projectedEomWmaAtDay (applyWmaForecast
      [\<lparr>date = new_Date 2023 1 1, cost = Fin 100, cumSpend = Fin 100, targetDaily = Fin 100,
        cumTarget = Fin 100, gap = Fin 0, cumGap = Fin 0, runningPacePct = Fin (1 / 2),
        recDaily = Fin 100, cumForecastWma = None, projectedEomWmaAtDay = None\<rparr>,
       \<lparr>date = new_Date 2023 1 2, cost = Fin 0, cumSpend = Fin 100, targetDaily = Fin 100,
        cumTarget = Fin 200, gap = Fin (- 100), cumGap = Fin (- 100), runningPacePct = Fin (1 / 2),
        recDaily = Fin 0, cumForecastWma = None, projectedEomWmaAtDay = None\<rparr>]
      \<lparr>tz = ''UTC'', y = 2023, m0 = 1, first = new_Date 2023 1 1, daysInMonth = 2, daysElapsed = 1\<rparr>
      (Fin 110) (Fin 80) ! 1) = Some (Fin 100)"
  using C3_forecast_fields [where d = 2 and s = 110 and w = 80 and c = 100
      and mCtx = "\<lparr>tz = ''UTC'', y = 2023, m0 = 1, first = new_Date 2023 1 1, daysInMonth = 2, daysElapsed = 1\<rparr>"
      and perDay = "[\<lparr>date = new_Date 2023 1 1, cost = Fin 100, cumSpend = Fin 100, targetDaily = Fin 100,
        cumTarget = Fin 100, gap = Fin 0, cumGap = Fin 0, runningPacePct = Fin (1 / 2),
        recDaily = Fin 100, cumForecastWma = None, projectedEomWmaAtDay = None\<rparr>,
       \<lparr>date = new_Date 2023 1 2, cost = Fin 0, cumSpend = Fin 100, targetDaily = Fin 100,
        cumTarget = Fin 200, gap = Fin (- 100), cumGap = Fin (- 100), runningPacePct = Fin (1 / 2),
        recDaily = Fin 0, cumForecastWma = None, projectedEomWmaAtDay = None\<rparr>]"]
  by simp

text \<open>
  C10. \<open>applyWmaForecast_\<close> keeps the length and the order of the series and, in every
  row, the date, cost, cumSpend, targetDaily, cumTarget, gap, cumGap, runningPacePct and
  recDaily: the rows before and after differ in nothing but \<open>cumForecastWma\<close> and
  \<open>projectedEomWmaAtDay\<close>.
\<close>

theorem C10_forecast_frame:
  "length (applyWmaForecast perDay mCtx spendMtd wmaDaily) = length perDay
   \<and> map date (applyWmaForecast perDay mCtx spendMtd wmaDaily) = map date perDay
   \<and> map cost (applyWmaForecast perDay mCtx spendMtd wmaDaily) = map cost perDay
   \<and> map cumSpend (applyWmaForecast perDay mCtx spendMtd wmaDaily) = map cumSpend perDay
   \<and> map targetDaily (applyWmaForecast perDay mCtx spendMtd wmaDaily) = map targetDaily perDay
   \<and> map cumTarget (applyWmaForecast perDay mCtx spendMtd wmaDaily) = map cumTarget perDay
   \<and> map gap (applyWmaForecast perDay mCtx spendMtd wmaDaily) = map gap perDay
   \<and> map cumGap (applyWmaForecast perDay mCtx spendMtd wmaDaily) = map cumGap perDay
   \<and> map runningPacePct (applyWmaForecast perDay mCtx spendMtd wmaDaily) = map runningPacePct perDay
   \<and> map recDaily (applyWmaForecast perDay mCtx spendMtd wmaDaily) = map recDaily perDay
   \<and> map (\<lambda>r. r\<lparr>cumForecastWma := None, projectedEomWmaAtDay := None\<rparr>)
          (applyWmaForecast perDay mCtx spendMtd wmaDaily)
      = map (\<lambda>r. r\<lparr>cumForecastWma := None, projectedEomWmaAtDay := None\<rparr>) perDay"
proof -
  have len: "length (applyWmaForecast perDay mCtx spendMtd wmaDaily) = length perDay"
    by (simp add: applyWmaForecast_eq)
  have fr: "map f (applyWmaForecast perDay mCtx spendMtd wmaDaily) = map f perDay"
    if "\<And>d r. f (forecast_row mCtx spendMtd wmaDaily d r) = f r" for f :: "DayRow \<Rightarrow> 'a"
    by (rule nth_equalityI) (simp_all add: len applyWmaForecast_nth that)
  show ?thesis
    by (intro conjI len fr) (simp_all add: forecast_row_def Let_def)
qed

theorem C10_forecast_frame_witness:
  "map cumSpend (applyWmaForecast
      [\<lparr>date = new_Date 2023 1 1, cost = Fin 100, cumSpend = Fin 100, targetDaily = Fin 100,
        cumTarget = Fin 100, gap = Fin 0, cumGap = Fin 0, runningPacePct = Fin (1 / 2),
        recDaily = Fin 100, cumForecastWma = None, projectedEomWmaAtDay = None\<rparr>,
       \<lparr>date = new_Date 2023 1 2, cost = Fin 0, cumSpend = Fin 100, targetDaily = Fin 100,
        cumTarget = Fin 200, gap = Fin (- 100), cumGap = Fin (- 100), runningPacePct = Fin (1 / 2),
        recDaily = Fin 0, cumForecastWma = None, projectedEomWmaAtDay = None\<rparr>]
      \<lparr>tz = ''UTC'', y = 2023, m0 = 1, first = new_Date 2023 1 1, daysInMonth = 2, daysElapsed = 1\<rparr>
      (Fin 110) (Fin 80)) = [Fin 100, Fin 100]
   \<and> length (applyWmaForecast
      [\<lparr>date = new_Date 2023 1 1, cost = Fin 100, cumSpend = Fin 100, targetDaily = Fin 100,
        cumTarget = Fin 100, gap = Fin 0, cumGap = Fin 0, runningPacePct = Fin (1 / 2),
        recDaily = Fin 100, cumForecastWma = None, projectedEomWmaAtDay = None\<rparr>,
       \<lparr>date = new_Date 2023 1 2, cost = Fin 0, cumSpend = Fin 100, targetDaily = Fin 100,
        cumTarget = Fin 200, gap = Fin (- 100), cumGap = Fin (- 100), runningPacePct = Fin (1 / 2),
        recDaily = Fin 0, cumForecastWma = None, projectedEomWmaAtDay = None\<rparr>]
      \<lparr>tz = ''UTC'', y = 2023, m0 = 1, first = new_Date 2023 1 1, daysInMonth = 2, daysElapsed = 1\<rparr>
      (Fin 110) (Fin 80)) = 2"
  using C10_forecast_frame [where spendMtd = "Fin 110" and wmaDaily = "Fin 80"
      and mCtx = "\<lparr>tz = ''UTC'', y = 2023, m0 = 1, first = new_Date 2023 1 1, daysInMonth = 2, daysElapsed = 1\<rparr>"
      and perDay = "[\<lparr>date = new_Date 2023 1 1, cost = Fin 100, cumSpend = Fin 100, targetDaily = Fin 100,
        cumTarget = Fin 100, gap = Fin 0, cumGap = Fin 0, runningPacePct = Fin (1 / 2),
        recDaily = Fin 100, cumForecastWma = None, projectedEomWmaAtDay = None\<rparr>,
       \<lparr>date = new_Date 2023 1 2, cost = Fin 0, cumSpend = Fin 100, targetDaily = Fin 100,
        cumTarget = Fin 200, gap = Fin (- 100), cumGap = Fin (- 100), runningPacePct = Fin (1 / 2),
        recDaily = Fin 0, cumForecastWma = None, projectedEomWmaAtDay = None\<rparr>]"]
  by simp

section \<open>Properties of the weighted moving average\<close>

text \<open>
  The loop from step \<open>i\<close> on, when the window lies within the series: no early exit and
  no missing row.
\<close>

lemma js_mul_num_left: "js_mul (num i) (Fin a) = Fin (of_int i * a)"
  by (simp add: num_def)

lemma wma_loop_eq:
  fixes cs :: "real list" and sx :: real
  assumes costs: "map cost perDay = map Fin cs"
    and i: "0 \<le> i" "i \<le> n" and n: "n \<le> de" and de: "de \<le> int (length perDay)"
  shows "wma_loop perDay de n i sumW (Fin sx)
    = Inr (sumW + sum_list (map (\<lambda>j. n - j) [i..n - 1]),
           Fin (sx + sum_list (map (\<lambda>j. of_int (n - j) * cs ! nat (de - j - 1)) [i..n - 1])))"
  using i
proof (induction "nat (n - i)" arbitrary: i sumW sx)
  case 0
  then have "\<not> i < n" by simp
  then show ?case by (simp add: wma_loop.simps)
next
  case (Suc m)
  then have lt: "i < n" and m: "m = nat (n - (i + 1))" by simp_all
  have idx: "\<not> de - i \<le> 0" "\<not> int (length perDay) \<le> de - i - 1"
    using lt n de Suc.prems by simp_all
  have k: "nat (de - i - 1) < length perDay" using lt n de Suc.prems by simp
  have "cost (perDay ! nat (de - i - 1)) = map cost perDay ! nat (de - i - 1)"
    using k by simp
  also have "\<dots> = Fin (cs ! nat (de - i - 1))"
    using k costs map_eq_imp_length_eq [OF costs] by simp
  finally have c: "cost (perDay ! nat (de - i - 1)) = Fin (cs ! nat (de - i - 1))" .
  have up: "[i..n - 1] = i # [i + 1..n - 1]" using lt by (simp add: upto_rec1)
  have i1: "0 \<le> i + 1" "i + 1 \<le> n" using lt Suc.prems by simp_all
  show ?case
    apply (subst wma_loop.simps)
    apply (simp only: lt if_True Let_def idx if_False c js_or_Fin0 js_mul_num_left js_add.simps)
    apply (subst Suc.hyps(1) [OF m i1])
    apply (simp add: up add.assoc)
    done
qed

lemma sum_list_upto_reindex:
  fixes g :: "int \<Rightarrow> 'a::comm_monoid_add"
  shows "sum_list (map (\<lambda>j. g (de - j)) [0..n - 1]) = (\<Sum>k = de - n + 1..de. g k)"
proof -
  have "sum_list (map (\<lambda>j. g (de - j)) [0..n - 1]) = (\<Sum>j\<in>{0..n - 1}. g (de - j))"
    using sum_set_upto_conv_sum_list_int [of "\<lambda>j. g (de - j)" 0 "n - 1"] by simp
  also have "\<dots> = (\<Sum>k = de - n + 1..de. g k)"
    by (rule sum.reindex_bij_witness [of _ "\<lambda>k. de - k" "\<lambda>j. de - j"]) auto
  finally show ?thesis .
qed

lemma computeWmaDaily_eq:
  fixes cs :: "real list"
  assumes costs: "map cost perDay = map Fin cs"
    and de: "de \<le> int (length perDay)" and n: "n = min W (max de 0)" and pos: "0 < n"
  shows "computeWmaDaily perDay de W
    = Inr (Fin (sum_list (map (\<lambda>j. of_int (n - j) * cs ! nat (de - j - 1)) [0..n - 1])
               / of_int (sum_list (map (\<lambda>j. n - j) [0..n - 1]))))"
proof -
  have nde: "n \<le> de" using n pos by linarith
  have l: "wma_loop perDay de n 0 0 (Fin 0)
    = Inr (sum_list (map (\<lambda>j. n - j) [0..n - 1]),
           Fin (sum_list (map (\<lambda>j. of_int (n - j) * cs ! nat (de - j - 1)) [0..n - 1])))"
    using wma_loop_eq [OF costs _ _ nde de, of 0 0 0] pos by simp
  have "sum_list (map (\<lambda>j. n - j) [0..n - 1]) = (\<Sum>j\<in>{0..n - 1}. n - j)"
    using sum_set_upto_conv_sum_list_int [of "\<lambda>j. n - j" 0 "n - 1"] by simp
  also have "0 < \<dots>" using pos by (intro sum_pos) auto
  finally have w: "sum_list (map (\<lambda>j. n - j) [0..n - 1]) \<noteq> 0" by simp
  show ?thesis
    using pos w by (simp add: computeWmaDaily_def wma_result_def Let_def n [symmetric] l js_div_num)
qed

text \<open>
  C2, as the code has it. For every series with finite costs, every window size
  \<open>W \<ge> 1\<close> and every \<open>daysElapsed\<close> that does not exceed the length of the series,
  with \<open>n = min W (max daysElapsed 0)\<close>: \<open>computeWmaDaily_\<close> returns 0 when
  \<open>n \<le> 0\<close>, and otherwise the sum of weight times cost over the sum of the weights,
  over the days \<open>daysElapsed - n + 1\<close> to \<open>daysElapsed\<close>, day \<open>k\<close> weighing
  \<open>k - (daysElapsed - n)\<close>: \<open>n\<close> for the most recent day, 1 for the oldest. With
  \<open>daysElapsed = 0\<close> the result is 0; with \<open>W = 7\<close> and \<open>daysElapsed = 3\<close> the three
  days weigh 3, 2 and 1 from the newest to the oldest.
\<close>

theorem C2_computeWmaDaily:
  fixes cs :: "real list"
  assumes "map cost perDay = map Fin cs" and "1 \<le> W" and "de \<le> int (length perDay)"
  defines "n \<equiv> min W (max de 0)"
  shows "(n \<le> 0 \<longrightarrow> computeWmaDaily perDay de W = Inr (Fin 0))
    \<and> (0 < n \<longrightarrow> computeWmaDaily perDay de W
          = Inr (Fin ((\<Sum>k = de - n + 1..de. of_int (k - (de - n)) * cs ! nat (k - 1))
                      / of_int (\<Sum>k = de - n + 1..de. k - (de - n)))))
    \<and> computeWmaDaily perDay 0 W = Inr (Fin 0)
    \<and> (3 \<le> length perDay \<longrightarrow> computeWmaDaily perDay 3 7
          = Inr (Fin ((3 * cs ! 2 + 2 * cs ! 1 + 1 * cs ! 0) / (3 + 2 + 1))))"
proof -
  have a: "computeWmaDaily perDay de W = Inr (Fin 0)" if "n \<le> 0"
    using that by (simp add: computeWmaDaily_def Let_def n_def)
  have b: "computeWmaDaily perDay de W
          = Inr (Fin ((\<Sum>k = de - n + 1..de. of_int (k - (de - n)) * cs ! nat (k - 1))
                      / of_int (\<Sum>k = de - n + 1..de. k - (de - n))))" if "0 < n"
  proof -
    have 1: "sum_list (map (\<lambda>j. of_int (n - j) * cs ! nat (de - j - 1)) [0..n - 1])
        = (\<Sum>k = de - n + 1..de. of_int (k - (de - n)) * cs ! nat (k - 1))"
      using sum_list_upto_reindex [of "\<lambda>k. of_int (k - (de - n)) * cs ! nat (k - 1)" de n]
      by (simp add: algebra_simps)
    have 2: "sum_list (map (\<lambda>j. n - j) [0..n - 1]) = (\<Sum>k = de - n + 1..de. k - (de - n))"
      using sum_list_upto_reindex [of "\<lambda>k. k - (de - n)" de n] by (simp add: algebra_simps)
    have nn: "n = min W (max de 0)" by (simp add: n_def)
    show ?thesis
      by (simp only: computeWmaDaily_eq [OF assms(1) assms(3) nn that] 1 2)
  qed
  have c: "computeWmaDaily perDay 0 W = Inr (Fin 0)"
    by (simp add: computeWmaDaily_def Let_def)
  have d: "computeWmaDaily perDay 3 7
          = Inr (Fin ((3 * cs ! 2 + 2 * cs ! 1 + 1 * cs ! 0) / (3 + 2 + 1)))" if "3 \<le> length perDay"
  proof -
    have u: "[0..2::int] = [0, 1, 2]" by (simp add: upto_rec1)
    show ?thesis
      using computeWmaDaily_eq [OF assms(1), of 3 3 7] that by (simp add: u)
  qed
  from a b c d show ?thesis by blast
qed

text \<open>Three days of 200, 200 and 0: (3 * 0 + 2 * 200 + 1 * 200) / 6.\<close>

theorem C2_computeWmaDaily_witness:
  "computeWmaDaily
     [\<lparr>date = new_Date 2023 1 1, cost = Fin 200, cumSpend = Fin 200, targetDaily = Fin 100,
       cumTarget = Fin 100, gap = Fin 100, cumGap = Fin 100, runningPacePct = Fin (2 / 3),
       recDaily = Fin 50, cumForecastWma = None, projectedEomWmaAtDay = None\<rparr>,
      \<lparr>date = new_Date 2023 1 2, cost = Fin 200, cumSpend = Fin 400, targetDaily = Fin 100,
       cumTarget = Fin 200, gap = Fin 100, cumGap = Fin 200, runningPacePct = Fin (4 / 3),
       recDaily = Fin 0, cumForecastWma = None, projectedEomWmaAtDay = None\<rparr>,
      \<lparr>date = new_Date 2023 1 3, cost = Fin 0, cumSpend = Fin 400, targetDaily = Fin 100,
       cumTarget = Fin 300, gap = Fin (- 100), cumGap = Fin 100, runningPacePct = Fin (4 / 3),
       recDaily = Fin 0, cumForecastWma = None, projectedEomWmaAtDay = None\<rparr>] 3 7
   = Inr (Fin 100)"
  using C2_computeWmaDaily [where cs = "[200, 200, 0]" and W = 7 and de = 3 and perDay =
    "[\<lparr>date = new_Date 2023 1 1, cost = Fin 200, cumSpend = Fin 200, targetDaily = Fin 100,
       cumTarget = Fin 100, gap = Fin 100, cumGap = Fin 100, runningPacePct = Fin (2 / 3),
       recDaily = Fin 50, cumForecastWma = None, projectedEomWmaAtDay = None\<rparr>,
      \<lparr>date = new_Date 2023 1 2, cost = Fin 200, cumSpend = Fin 400, targetDaily = Fin 100,
       cumTarget = Fin 200, gap = Fin 100, cumGap = Fin 200, runningPacePct = Fin (4 / 3),
       recDaily = Fin 0, cumForecastWma = None, projectedEomWmaAtDay = None\<rparr>,
      \<lparr>date = new_Date 2023 1 3, cost = Fin 0, cumSpend = Fin 400, targetDaily = Fin 100,
       cumTarget = Fin 300, gap = Fin (- 100), cumGap = Fin 100, runningPacePct = Fin (4 / 3),
       recDaily = Fin 0, cumForecastWma = None, projectedEomWmaAtDay = None\<rparr>]",
    THEN conjunct2, THEN conjunct2, THEN conjunct2]
  by simp

text \<open>
  With more days elapsed than the series has rows, the loop reads \<open>.cost\<close> of a row that
  does not exist: a \<open>TypeError\<close>, not a number.
\<close>

theorem C2_counterexample:
  "computeWmaDaily
     [\<lparr>date = new_Date 2023 1 1, cost = Fin 100, cumSpend = Fin 100, targetDaily = Fin 100,
       cumTarget = Fin 100, gap = Fin 0, cumGap = Fin 0, runningPacePct = Fin (1 / 2),
       recDaily = Fin 100, cumForecastWma = None, projectedEomWmaAtDay = None\<rparr>,
      \<lparr>date = new_Date 2023 1 2, cost = Fin 0, cumSpend = Fin 100, targetDaily = Fin 100,
       cumTarget = Fin 200, gap = Fin (- 100), cumGap = Fin (- 100), runningPacePct = Fin (1 / 2),
       recDaily = Fin 0, cumForecastWma = None, projectedEomWmaAtDay = None\<rparr>] 3 7
   = Inl TypeError"
  by (simp add: computeWmaDaily_def Let_def wma_loop.simps)

section \<open>Zero denominators\<close>






end
